theory Spec2Isabelle
  imports Complex_Main "HOL-Library.Sublist"
begin

section \<open>Data model\<close>

text \<open>
  The articles service of the repository (the gin program with the middleware chain).
  Go's \<open>int\<close> is modelled as \<open>int\<close> with the 64-bit wrap-around of \<open>nextId++\<close>
  written out; an instant of \<open>time.Time\<close> is a number of nanoseconds.
\<close>

type_synonym time = int

record article =
  ID :: int
  Title :: string
  Content :: string
  Author :: string
  CreatedAt :: time
  UpdatedAt :: time

text \<open>
  The \<open>Data\<close> field is an \<open>interface{}\<close>: the handlers store the whole collection,
  one article, or the statistics map (total_articles, uptime); \<open>None\<close> is the nil
  interface.
\<close>

datatype data = Articles "article list" | OneArticle article | Stats int string

record response =
  Success :: bool
  Data :: "data option"
  Message :: string
  Error :: string
  RequestID :: string

text \<open>
  The JSON object of a response, following the struct tags: \<open>Success\<close> is tagged
  \<open>json:"id"\<close>, the four other fields are \<open>omitempty\<close>.
\<close>

datatype json = JBool bool | JStr string | JData data

definition encode :: "response \<Rightarrow> (string \<times> json) list" where
  "encode r =
     [(''id'', JBool (Success r))]
     @ (case Data r of None \<Rightarrow> [] | Some d \<Rightarrow> [(''data'', JData d)])
     @ (if Message r = [] then [] else [(''message'', JStr (Message r))])
     @ (if Error r = [] then [] else [(''error'', JStr (Error r))])
     @ (if RequestID r = [] then [] else [(''request_id'', JStr (RequestID r))])"

definition json_field :: "string \<Rightarrow> response \<Rightarrow> json option" where
  "json_field name r = map_of (encode r) name"

text \<open>
  A request: method, path (the segments between the slashes), headers, the client
  address that \<open>c.ClientIP()\<close> returns, and what \<open>c.ShouldBindJSON(&input)\<close> does
  with the body: it fills \<open>input\<close>, and returns an error or not.
\<close>

datatype bind = Bound article | BindError string article

record request =
  Method :: string
  URLPath :: "string list"
  ReqHeader :: "string \<rightharpoonup> string"
  Body :: bind
  ClientIP :: string

datatype body = JSONBody response | PlainBody string

text \<open>The \<open>gin.Context\<close> of one request, with its response writer.\<close>

record gin_context =
  Request :: request
  Params :: "string \<rightharpoonup> string"
  Keys :: "string \<rightharpoonup> string"
  aborted :: bool
  Header :: "string \<rightharpoonup> string"
  Status :: int
  Written :: bool
  Bodies :: "body list"

text \<open>
  Modelled from the spec: \<open>rate.Limiter\<close> of golang.org/x/time/rate (\<open>NewLimiter\<close>,
  \<open>Every\<close>, \<open>Allow\<close>) is not among the source files. The entry is the spec's
  token bucket \<open>{capacity, refill_rate, current_tokens, last_refill_time}\<close>; the rate
  is in tokens per nanosecond and the arithmetic is exact.
\<close>

record limiter =
  capacity :: int
  refill_rate :: rat
  current_tokens :: rat
  last_refill_time :: time

text \<open>
  The shared state of the process (\<open>articles\<close>, \<open>nextId\<close>, the \<open>visitors\<close> map of the
  rate limiter) and its environment: the clock, of which \<open>time.Now()\<close> takes the next
  reading, and the source of \<open>uuid.New()\<close>.
\<close>

record world =
  articles :: "article list"
  nextId :: int
  visitors :: "string \<rightharpoonup> limiter"
  clock :: "nat \<Rightarrow> time"
  reads :: nat
  uuids :: "nat \<Rightarrow> string"
  issued :: nat

definition time_Now :: "world \<Rightarrow> time \<times> world" where
  "time_Now w = (clock w (reads w), w\<lparr>reads := Suc (reads w)\<rparr>)"

definition uuid_New :: "world \<Rightarrow> string \<times> world" where
  "uuid_New w = (uuids w (issued w), w\<lparr>issued := Suc (issued w)\<rparr>)"

definition wrap64 :: "int \<Rightarrow> int" where
  "wrap64 x = (x + 2 ^ 63) mod 2 ^ 64 - 2 ^ 63"

section \<open>The framework: context operations and the handler chain\<close>

text \<open>
  A handler either returns or panics; both leave the context and the world as they
  were at that moment. A handler receives the rest of its chain, which \<open>c.Next()\<close>
  runs.
\<close>

datatype outcome = Done "gin_context \<times> world" | Panic "gin_context \<times> world"

type_synonym handler = "(gin_context \<times> world \<Rightarrow> outcome) \<Rightarrow> gin_context \<times> world \<Rightarrow> outcome"

definition Set_key :: "string \<Rightarrow> string \<Rightarrow> gin_context \<Rightarrow> gin_context" where
  "Set_key k v c = c\<lparr>Keys := (Keys c)(k \<mapsto> v)\<rparr>"

definition GetString :: "string \<Rightarrow> gin_context \<Rightarrow> string" where
  "GetString k c = (case Keys c k of None \<Rightarrow> [] | Some v \<Rightarrow> v)"

definition GetHeader :: "string \<Rightarrow> gin_context \<Rightarrow> string" where
  "GetHeader k c = (case ReqHeader (Request c) k of None \<Rightarrow> [] | Some v \<Rightarrow> v)"

definition Param :: "string \<Rightarrow> gin_context \<Rightarrow> string" where
  "Param k c = (case Params c k of None \<Rightarrow> [] | Some v \<Rightarrow> v)"

definition Header_Set :: "string \<Rightarrow> string \<Rightarrow> gin_context \<Rightarrow> gin_context" where
  "Header_Set k v c = c\<lparr>Header := (Header c)(k \<mapsto> v)\<rparr>"

definition Abort :: "gin_context \<Rightarrow> gin_context" where
  "Abort c = c\<lparr>aborted := True\<rparr>"

definition WriteHeader :: "int \<Rightarrow> gin_context \<Rightarrow> gin_context" where
  "WriteHeader code c =
     (if code > 0 \<and> Status c \<noteq> code
      then (if Written c then c else c\<lparr>Status := code\<rparr>)
      else c)"

definition WriteHeaderNow :: "gin_context \<Rightarrow> gin_context" where
  "WriteHeaderNow c = (if Written c then c else c\<lparr>Written := True\<rparr>)"

definition bodyAllowedForStatus :: "int \<Rightarrow> bool" where
  "bodyAllowedForStatus code =
     (if 100 \<le> code \<and> code \<le> 199 then False
      else if code = 204 then False
      else if code = 304 then False
      else True)"

definition writeContentType :: "string \<Rightarrow> gin_context \<Rightarrow> gin_context" where
  "writeContentType v c =
     (if Header c ''Content-Type'' = None then Header_Set ''Content-Type'' v c else c)"

definition Write :: "body \<Rightarrow> gin_context \<Rightarrow> gin_context" where
  "Write b c = (WriteHeaderNow c)\<lparr>Bodies := Bodies c @ [b]\<rparr>"

definition JSON :: "int \<Rightarrow> response \<Rightarrow> gin_context \<Rightarrow> gin_context" where
  "JSON code obj c =
     (let c1 = WriteHeader code c;
          c2 = writeContentType ''application/json; charset=utf-8'' c1
      in if \<not> bodyAllowedForStatus code then WriteHeaderNow c2
         else Write (JSONBody obj) c2)"

definition AbortWithStatusJSON :: "int \<Rightarrow> response \<Rightarrow> gin_context \<Rightarrow> gin_context" where
  "AbortWithStatusJSON code obj c = JSON code obj (Abort c)"

definition AbortWithStatus :: "int \<Rightarrow> gin_context \<Rightarrow> gin_context" where
  "AbortWithStatus code c = Abort (WriteHeaderNow (WriteHeader code c))"

text \<open>
  \<open>c.Next()\<close> runs the handlers that are left; after \<open>Abort\<close> none is left. Every
  handler of this program calls \<open>c.Next()\<close>, aborts, or is the last of its chain.
\<close>

definition Next :: "(gin_context \<times> world \<Rightarrow> outcome) \<Rightarrow> gin_context \<times> world \<Rightarrow> outcome" where
  "Next k s = (if aborted (fst s) then Done s else k s)"

primrec run_chain :: "handler list \<Rightarrow> gin_context \<times> world \<Rightarrow> outcome" where
  "run_chain [] = Done"
| "run_chain (h # hs) = h (run_chain hs)"

section \<open>The rate limiter's token bucket\<close>

text \<open>
  Modelled from the spec: \<open>rate.Every\<close>, \<open>rate.NewLimiter\<close> and \<open>Limiter.Allow\<close> of
  golang.org/x/time/rate are not among the source files. \<open>Every d\<close> is one token per
  \<open>d\<close> nanoseconds. The bucket of \<open>NewLimiter\<close> is full (the package describes its
  bucket as "initially full"). \<open>Allow_at\<close> is the spec's step at the instant \<open>now\<close>:
  tokens accrued since the last check are \<open>elapsed_time * R\<close>, capped at the capacity;
  with at least one token available one is consumed and the request allowed, otherwise
  it is rejected.
\<close>

definition Every :: "int \<Rightarrow> rat" where
  "Every interval = 1 / of_int interval"

definition NewLimiter :: "rat \<Rightarrow> int \<Rightarrow> limiter" where
  "NewLimiter r b =
     \<lparr>capacity = b, refill_rate = r, current_tokens = of_int b, last_refill_time = 0\<rparr>"

definition Allow_at :: "time \<Rightarrow> limiter \<Rightarrow> bool \<times> limiter" where
  "Allow_at now l =
     (let elapsed = (if now < last_refill_time l then 0 else now - last_refill_time l);
          accrued = of_int elapsed * refill_rate l;
          tokens = min (of_int (capacity l)) (current_tokens l + accrued);
          l1 = l\<lparr>current_tokens := tokens, last_refill_time := now\<rparr>
      in if 1 \<le> tokens then (True, l1\<lparr>current_tokens := tokens - 1\<rparr>) else (False, l1))"

definition Minute :: int where
  "Minute = 60 * 1000000000"

section \<open>The middlewares\<close>

definition zero_response :: response where
  "zero_response = \<lparr>Success = False, Data = None, Message = [], Error = [], RequestID = []\<rparr>"

text \<open>
  \<open>gin.CustomRecovery\<close>: runs the rest of the chain and, when it panics, calls the
  function given. (Its branch for a broken connection and its log are left out.)
\<close>

definition ErrorHandlerMiddleware :: handler where
  "ErrorHandlerMiddleware k s =
     (case Next k s of
        Done s' \<Rightarrow> Done s'
      | Panic (c, w) \<Rightarrow>
          Done (AbortWithStatusJSON 500
                  (zero_response\<lparr>Success := False, Error := ''interal server error'',
                     RequestID := GetString ''request_id'' c\<rparr>) c, w))"

definition RequestIDMiddleware :: handler where
  "RequestIDMiddleware k s =
     (case s of (c, w) \<Rightarrow>
        let (uid, w1) = uuid_New w;
            c1 = Set_key ''request_id'' uid c;
            c2 = Header_Set ''X-Request-ID'' uid c1
        in Next k (c2, w1))"

text \<open>The line that \<open>log.Printf\<close> prints is not part of the state; the two clock readings are.\<close>

definition LoggingMiddleware :: handler where
  "LoggingMiddleware k s =
     (case s of (c, w) \<Rightarrow>
        let (start, w1) = time_Now w
        in (case Next k (c, w1) of
              Panic s' \<Rightarrow> Panic s'
            | Done (c', w') \<Rightarrow> (let (fin, w'') = time_Now w' in Done (c', w''))))"

definition apiKeys :: "string \<rightharpoonup> string" where
  "apiKeys = map_of [(''admin-key'', ''admin''), (''user-key-456'', ''user'')]"

definition AuthMiddleware :: handler where
  "AuthMiddleware k s =
     (case s of (c, w) \<Rightarrow>
        let key = GetHeader ''X-API-Key'' c;
            (role, ok) = (case apiKeys key of Some r \<Rightarrow> (r, True) | None \<Rightarrow> ([], False));
            c1 = (if \<not> ok
                  then AbortWithStatusJSON 401
                         (zero_response\<lparr>Success := False, Error := ''invalid or missing API key'',
                            RequestID := GetString ''request_id'' c\<rparr>) c
                  else c);
            c2 = Set_key ''role'' role c1
        in Next k (c2, w))"

definition allowedOrigins :: "string \<Rightarrow> bool" where
  "allowedOrigins origin =
     (case map_of [(''http://localhost:3000'', True), (''https://myblog.com'', True)] origin of
        Some b \<Rightarrow> b | None \<Rightarrow> False)"

definition CORSMiddleware :: handler where
  "CORSMiddleware k s =
     (case s of (c, w) \<Rightarrow>
        let origin = GetHeader ''Origin'' c;
            c1 = (if allowedOrigins origin
                  then Header_Set ''Access-Control-Allow-Origin'' origin c else c);
            c2 = Header_Set ''Access-Control-Allow-Methods'' ''GET, POST, PUT, DELETE, OPTIONS'' c1;
            c3 = Header_Set ''Access-Control-Allow-Headers''
                   ''Content-type, X-API-Key, X-Request-ID'' c2
        in if Method (Request c3) = ''OPTIONS'' then Done (AbortWithStatus 204 c3, w)
           else Next k (c3, w))"

text \<open>
  The limiter is a pointer in the \<open>visitors\<close> map: what \<open>Allow\<close> does to it is seen by the
  next request, so the model stores the limiter back.
\<close>

definition getLimiter :: "string \<Rightarrow> world \<Rightarrow> limiter \<times> world" where
  "getLimiter ip w =
     (case visitors w ip of
        Some l \<Rightarrow> (l, w)
      | None \<Rightarrow> (let l = NewLimiter (Every (Minute div 100)) 100
                 in (l, w\<lparr>visitors := (visitors w)(ip \<mapsto> l)\<rparr>)))"

definition RateLimitMiddleware :: handler where
  "RateLimitMiddleware k s =
     (case s of (c, w) \<Rightarrow>
        let ip = ClientIP (Request c);
            (l, w1) = getLimiter ip w;
            c1 = Header_Set ''X-RateLimit-Limit'' ''100'' c;
            (now, w2) = time_Now w1;
            (ok, l') = Allow_at now l;
            w3 = w2\<lparr>visitors := (visitors w2)(ip \<mapsto> l')\<rparr>
        in if \<not> ok
           then Done (AbortWithStatusJSON 429
                        (zero_response\<lparr>Success := False,
                           Error := ''too many requests, limit exceeded'',
                           RequestID := GetString ''request_id'' c1\<rparr>) c1, w3)
           else Next k (c1, w3))"

definition ContentTypeMiddleware :: handler where
  "ContentTypeMiddleware k s =
     (case s of (c, w) \<Rightarrow>
        if (Method (Request c) = ''POST'' \<or> Method (Request c) = ''PUT'')
           \<and> \<not> prefix ''application/json'' (GetHeader ''Content-Type'' c)
        then Done (AbortWithStatusJSON 415
                     (zero_response\<lparr>Success := False,
                        Error := ''Content type must be application/json'',
                        RequestID := GetString ''request_id'' c\<rparr>) c, w)
        else Next k (c, w))"

section \<open>The handlers\<close>

text \<open>
  \<open>strconv.Atoi\<close> (of Go's library) on a 64-bit platform: an optional sign and decimal
  digits; a syntax error gives 0, a value out of range the nearest bound, both with an
  error.
\<close>

definition digit :: "char \<Rightarrow> nat option" where
  "digit ch = (let n = (of_char ch :: nat) in if 48 \<le> n \<and> n \<le> 57 then Some (n - 48) else None)"

fun digits :: "string \<Rightarrow> nat \<Rightarrow> nat option" where
  "digits [] acc = Some acc"
| "digits (ch # cs) acc =
     (case digit ch of None \<Rightarrow> None | Some d \<Rightarrow> digits cs (acc * 10 + d))"

definition parse_decimal :: "string \<Rightarrow> int option" where
  "parse_decimal s =
     (case s of
        [] \<Rightarrow> None
      | ch # cs \<Rightarrow>
          if ch = CHR ''+'' then (if cs = [] then None else map_option int (digits cs 0))
          else if ch = CHR ''-'' then
            (if cs = [] then None else map_option (\<lambda>n. - int n) (digits cs 0))
          else map_option int (digits s 0))"

datatype num_error = ErrSyntax | ErrRange

definition Atoi :: "string \<Rightarrow> int \<times> num_error option" where
  "Atoi s =
     (case parse_decimal s of
        None \<Rightarrow> (0, Some ErrSyntax)
      | Some n \<Rightarrow>
          if n > 2 ^ 63 - 1 then (2 ^ 63 - 1, Some ErrRange)
          else if n < - (2 ^ 63) then (- (2 ^ 63), Some ErrRange)
          else (n, None))"

text \<open>The loop of \<open>findArticleByID\<close>, from index \<open>i\<close> on.\<close>

fun find_from :: "int \<Rightarrow> int \<Rightarrow> article list \<Rightarrow> article option \<times> int" where
  "find_from i aid [] = (None, - 1)"
| "find_from i aid (a # as) = (if ID a = aid then (Some a, i) else find_from (i + 1) aid as)"

definition findArticleByID :: "int \<Rightarrow> article list \<Rightarrow> article option \<times> int" where
  "findArticleByID aid as = find_from 0 aid as"

text \<open>The error is \<open>gin.Error{Err: http.ErrMissingFile}\<close>, given here by its message.\<close>

definition validateArticle :: "article \<Rightarrow> string option" where
  "validateArticle a =
     (if Title a = [] \<or> Content a = [] \<or> Author a = [] then Some ''http: no such file''
      else None)"

definition ping :: handler where
  "ping k s =
     (case s of (c, w) \<Rightarrow>
        Done (JSON 200 (zero_response\<lparr>Success := True, Message := ''pong'',
                          RequestID := GetString ''request_id'' c\<rparr>) c, w))"

definition getArticles :: handler where
  "getArticles k s =
     (case s of (c, w) \<Rightarrow>
        Done (JSON 200 (zero_response\<lparr>Success := True, Data := Some (Articles (articles w)),
                          RequestID := GetString ''request_id'' c\<rparr>) c, w))"

definition getArticleById :: handler where
  "getArticleById k s =
     (case s of (c, w) \<Rightarrow>
        let (aid, err) = Atoi (Param ''id'' c);
            (article, index) = findArticleByID aid (articles w)
        in (case article of
              None \<Rightarrow>
                Done (JSON 404 (zero_response\<lparr>Success := False, Error := ''article not found'',
                                  RequestID := GetString ''request_id'' c\<rparr>) c, w)
            | Some a \<Rightarrow>
                Done (JSON 200 (zero_response\<lparr>Success := True, Data := Some (OneArticle a),
                                  RequestID := GetString ''request_id'' c\<rparr>) c, w)))"

definition createArticle :: handler where
  "createArticle k s =
     (case s of (c, w) \<Rightarrow>
       (case Body (Request c) of
          BindError e a \<Rightarrow> Done (JSON 400 (zero_response\<lparr>Success := False, Error := e\<rparr>) c, w)
        | Bound input \<Rightarrow>
            (case validateArticle input of
               Some e \<Rightarrow> Done (JSON 400 (zero_response\<lparr>Success := False, Error := e\<rparr>) c, w)
             | None \<Rightarrow>
                 let input1 = input\<lparr>ID := nextId w\<rparr>;
                     w1 = w\<lparr>nextId := wrap64 (nextId w + 1)\<rparr>;
                     (t1, w2) = time_Now w1;
                     input2 = input1\<lparr>CreatedAt := t1\<rparr>;
                     (t2, w3) = time_Now w2;
                     input3 = input2\<lparr>UpdatedAt := t2\<rparr>;
                     w4 = w3\<lparr>articles := articles w3 @ [input3]\<rparr>
                 in Done (JSON 201 (zero_response\<lparr>Success := True,
                                      Data := Some (OneArticle input3)\<rparr>) c, w4))))"

text \<open>
  \<open>updateArticle\<close> drops the error of \<open>ShouldBindJSON\<close> and uses \<open>input\<close> as the call
  left it. The index that \<open>findArticleByID\<close> returns with an article is within the slice.
\<close>

definition updateArticle :: handler where
  "updateArticle k s =
     (case s of (c, w) \<Rightarrow>
        let (aid, err) = Atoi (Param ''id'' c);
            (article, index) = findArticleByID aid (articles w)
        in (case article of
             None \<Rightarrow>
               Done (JSON 404 (zero_response\<lparr>Success := False, Error := ''article not found''\<rparr>) c, w)
           | Some a \<Rightarrow>
               let input = (case Body (Request c) of Bound b \<Rightarrow> b | BindError e b \<Rightarrow> b);
                   i = nat index;
                   as1 = (articles w)[i := ((articles w) ! i)\<lparr>Title := Title input\<rparr>];
                   as2 = as1[i := (as1 ! i)\<lparr>Content := Content input\<rparr>];
                   as3 = as2[i := (as2 ! i)\<lparr>Author := Author input\<rparr>];
                   (now, w1) = time_Now w;
                   as4 = as3[i := (as3 ! i)\<lparr>UpdatedAt := now\<rparr>];
                   w2 = w1\<lparr>articles := as4\<rparr>
               in Done (JSON 200 (zero_response\<lparr>Success := True,
                                    Data := Some (OneArticle (as4 ! i))\<rparr>) c, w2)))"

definition deleteArticle :: handler where
  "deleteArticle k s =
     (case s of (c, w) \<Rightarrow>
        let (aid, err) = Atoi (Param ''id'' c);
            (article, index) = findArticleByID aid (articles w)
        in if index = - 1
           then Done (JSON 404 (zero_response\<lparr>Success := False,
                                  Error := ''article not found''\<rparr>) c, w)
           else
             let w1 = w\<lparr>articles := take (nat index) (articles w)
                                     @ drop (nat (index + 1)) (articles w)\<rparr>
             in Done (JSON 200 (zero_response\<lparr>Success := True,
                                  Message := ''article deleted''\<rparr>) c, w1))"

definition getStats :: handler where
  "getStats k s =
     (case s of (c, w) \<Rightarrow>
        if GetString ''role'' c \<noteq> ''admin''
        then Done (JSON 403 (zero_response\<lparr>Success := False,
                               Error := ''admin access required''\<rparr>) c, w)
        else Done (JSON 200 (zero_response\<lparr>Success := True,
                               Data := Some (Stats (int (length (articles w))) ''24h'')\<rparr>) c, w))"

section \<open>The routes of \<open>main\<close> and the engine\<close>

datatype seg = Lit string | Wild string

type_synonym route = "string \<times> seg list \<times> handler list"

definition middleware :: "handler list" where
  "middleware = [ErrorHandlerMiddleware, RequestIDMiddleware, LoggingMiddleware,
                 CORSMiddleware, RateLimitMiddleware, ContentTypeMiddleware]"

definition routes :: "route list" where
  "routes =
     [(''GET'', [Lit ''ping''], [ping]),
      (''GET'', [Lit ''articles''], [getArticles]),
      (''GET'', [Lit ''articles'', Wild ''id''], [getArticleById]),
      (''POST'', [Lit ''articles''], [AuthMiddleware, createArticle]),
      (''PUT'', [Lit ''articles'', Wild ''id''], [AuthMiddleware, updateArticle]),
      (''DELETE'', [Lit ''article'', Wild ''id''], [AuthMiddleware, deleteArticle]),
      (''GET'', [Lit ''admin'', Lit ''stats''], [AuthMiddleware, getStats])]"

text \<open>
  The router of gin on the segments of a path: a literal segment matches itself, a
  parameter \<open>:name\<close> matches one non-empty segment and binds it.
\<close>

fun match_path :: "seg list \<Rightarrow> string list \<Rightarrow> (string \<times> string) list option" where
  "match_path [] [] = Some []"
| "match_path (Lit l # ps) (x # xs) = (if l = x then match_path ps xs else None)"
| "match_path (Wild n # ps) (x # xs) =
     (if x = [] then None else map_option ((#) (n, x)) (match_path ps xs))"
| "match_path _ _ = None"

fun find_route :: "route list \<Rightarrow> string \<Rightarrow> string list
                     \<Rightarrow> ((string \<times> string) list \<times> handler list) option" where
  "find_route [] m p = None"
| "find_route ((m', pat, hs) # rs) m p =
     (if m' = m
      then (case match_path pat p of Some ps \<Rightarrow> Some (ps, hs) | None \<Rightarrow> find_route rs m p)
      else find_route rs m p)"

definition new_context :: "request \<Rightarrow> gin_context" where
  "new_context r =
     \<lparr>Request = r, Params = Map.empty, Keys = Map.empty, aborted = False,
      Header = Map.empty, Status = 200, Written = False, Bodies = []\<rparr>"

text \<open>
  gin's \<open>serveError\<close>, for a request that no route matches: the status is set, the
  middlewares of the engine run, and the default body is written unless a middleware
  has written a response.
\<close>

definition serveError :: "int \<Rightarrow> string \<Rightarrow> handler list \<Rightarrow> gin_context \<times> world \<Rightarrow> outcome" where
  "serveError code defaultMessage hs s =
     (case Next (run_chain hs) (fst s\<lparr>Status := code\<rparr>, snd s) of
        Panic s' \<Rightarrow> Panic s'
      | Done (c, w) \<Rightarrow>
          if Written c then Done (c, w)
          else if Status c = code
          then Done (Write (PlainBody defaultMessage) (Header_Set ''Content-Type'' ''text/plain'' c), w)
          else Done (WriteHeaderNow c, w))"

definition ServeHTTP :: "request \<Rightarrow> world \<Rightarrow> outcome" where
  "ServeHTTP r w =
     (case find_route routes (Method r) (URLPath r) of
        Some (ps, hs) \<Rightarrow>
          (case Next (run_chain (middleware @ hs)) ((new_context r)\<lparr>Params := map_of ps\<rparr>, w) of
             Panic s' \<Rightarrow> Panic s'
           | Done (c, w') \<Rightarrow> Done (WriteHeaderNow c, w'))
      | None \<Rightarrow> serveError 404 ''404 page not found'' middleware (new_context r, w))"

text \<open>
  The state in which \<open>main\<close> starts: the two articles of the source, stamped with the
  first four readings of the clock.
\<close>

definition initial_world :: "(nat \<Rightarrow> time) \<Rightarrow> (nat \<Rightarrow> string) \<Rightarrow> world" where
  "initial_world clk us =
     \<lparr>articles =
        [\<lparr>ID = 1, Title = ''Getting Started with Go'', Content = ''Go is a programming language...'',
          Author = ''John Doe'', CreatedAt = clk 0, UpdatedAt = clk 1\<rparr>,
         \<lparr>ID = 2, Title = ''Web Development with Gin'', Content = ''Gin is a web framework...'',
          Author = ''Jane Smith'', CreatedAt = clk 2, UpdatedAt = clk 3\<rparr>],
      nextId = 3, visitors = Map.empty, clock = clk, reads = 4, uuids = us, issued = 0\<rparr>"

section \<open>Observations, sequences of requests and example inputs\<close>

definition result_context :: "outcome \<Rightarrow> gin_context" where
  "result_context r = (case r of Done (c, w) \<Rightarrow> c | Panic (c, w) \<Rightarrow> c)"

definition result_world :: "outcome \<Rightarrow> world" where
  "result_world r = (case r of Done (c, w) \<Rightarrow> w | Panic (c, w) \<Rightarrow> w)"

definition returned :: "outcome \<Rightarrow> bool" where
  "returned r = (case r of Done s \<Rightarrow> True | Panic s \<Rightarrow> False)"

text \<open>The \<open>request_id\<close> fields of the bodies written, in order (\<open>None\<close>: no such field).\<close>

definition request_ids :: "gin_context \<Rightarrow> json option list" where
  "request_ids c =
     map (\<lambda>b. case b of JSONBody r \<Rightarrow> json_field ''request_id'' r | PlainBody t \<Rightarrow> None) (Bodies c)"

text \<open>An example clock and an example source of identifiers.\<close>

definition tick :: "nat \<Rightarrow> time" where
  "tick n = 1000 * int n"

definition one_uuid :: "nat \<Rightarrow> string" where
  "one_uuid n = ''6ba7b810-9dad-41d1-80b4-00c04fd430c8''"

definition zero_article :: article where
  "zero_article = \<lparr>ID = 0, Title = [], Content = [], Author = [], CreatedAt = 0, UpdatedAt = 0\<rparr>"

text \<open>\<open>POST /articles\<close> with \<open>{"title":"A","content":"B","author":"C"}\<close> and the admin key.\<close>

definition post_ABC :: request where
  "post_ABC =
     \<lparr>Method = ''POST'', URLPath = [''articles''],
      ReqHeader = map_of [(''X-API-Key'', ''admin-key''), (''Content-Type'', ''application/json'')],
      Body = Bound (zero_article\<lparr>Title := ''A'', Content := ''B'', Author := ''C''\<rparr>),
      ClientIP = ''203.0.113.7''\<rparr>"

text \<open>\<open>PUT /articles/1\<close> with a key that is not in the mapping.\<close>

definition put_wrong_key :: request where
  "put_wrong_key =
     \<lparr>Method = ''PUT'', URLPath = [''articles'', ''1''],
      ReqHeader = map_of [(''X-API-Key'', ''wrong-key''), (''Content-Type'', ''application/json'')],
      Body = Bound (zero_article\<lparr>Title := ''A2''\<rparr>),
      ClientIP = ''203.0.113.7''\<rparr>"

text \<open>\<open>GET /ping\<close>, and a handler in which a fault occurs.\<close>

definition get_ping :: request where
  "get_ping =
     \<lparr>Method = ''GET'', URLPath = [''ping''], ReqHeader = Map.empty,
      Body = BindError ''EOF'' zero_article, ClientIP = ''203.0.113.7''\<rparr>"

definition faulty :: handler where
  "faulty k s = Panic s"

text \<open>\<open>DELETE /articles/1\<close> and \<open>DELETE /article/1\<close>, both with the admin key.\<close>

definition delete_at :: "string \<Rightarrow> string \<Rightarrow> request" where
  "delete_at collection aid =
     \<lparr>Method = ''DELETE'', URLPath = [collection, aid],
      ReqHeader = map_of [(''X-API-Key'', ''admin-key'')],
      Body = BindError ''EOF'' zero_article, ClientIP = ''203.0.113.7''\<rparr>"

text \<open>\<open>POST /articles\<close> with \<open>{"content":"B","author":"C"}\<close>: the title is missing.\<close>

definition post_no_title :: request where
  "post_no_title = post_ABC\<lparr>Body := Bound (zero_article\<lparr>Content := ''B'', Author := ''C''\<rparr>)\<rparr>"

text \<open>The \<open>input\<close> of a handler after \<open>c.ShouldBindJSON(&input)\<close>, the error dropped.\<close>

definition bound_input :: "gin_context \<Rightarrow> article" where
  "bound_input c = (case Body (Request c) of Bound b \<Rightarrow> b | BindError e b \<Rightarrow> b)"

text \<open>
  \<open>PUT /articles/1\<close> with \<open>{"title":"A2"}\<close> and the admin key; a clock that was set back
  after the program started, and one whose readings do not advance.
\<close>

definition put_A2 :: request where
  "put_A2 =
     \<lparr>Method = ''PUT'', URLPath = [''articles'', ''1''],
      ReqHeader = map_of [(''X-API-Key'', ''admin-key''), (''Content-Type'', ''application/json'')],
      Body = Bound (zero_article\<lparr>Title := ''A2''\<rparr>),
      ClientIP = ''203.0.113.7''\<rparr>"

definition set_back :: "nat \<Rightarrow> time" where
  "set_back n = (if n < 4 then 9000 + int n else 5000 + int n)"

definition stopped :: "nat \<Rightarrow> time" where
  "stopped n = 7000"

text \<open>
  For the stage-by-stage reading of the chain: a context that no stage has written to
  or aborted; the condition of the content-type stage on a request; whether the limiter of the
  request's client allows it at the reading of the clock that \<open>RateLimitMiddleware\<close>
  takes, the second of the request; and the world in which the stages behind the limiter
  start.
\<close>

definition untouched :: "request \<Rightarrow> gin_context \<Rightarrow> bool" where
  "untouched r c \<longleftrightarrow>
     Request c = r \<and> \<not> aborted c \<and> \<not> Written c \<and> Bodies c = [] \<and> Status c = 200"

definition limiter_allows :: "request \<Rightarrow> world \<Rightarrow> bool" where
  "limiter_allows r w = fst (Allow_at (clock w (Suc (reads w))) (fst (getLimiter (ClientIP r) w)))"

definition content_type_ok :: "request \<Rightarrow> bool" where
  "content_type_ok r \<longleftrightarrow>
     \<not> (Method r = ''POST'' \<or> Method r = ''PUT'')
     \<or> prefix ''application/json''
          (case ReqHeader r ''Content-Type'' of None \<Rightarrow> [] | Some v \<Rightarrow> v)"

definition after_limiter :: "request \<Rightarrow> world \<Rightarrow> world" where
  "after_limiter r w =
     w\<lparr>issued := Suc (issued w), reads := reads w + 2,
       visitors := (visitors w)(ClientIP r \<mapsto>
         snd (Allow_at (clock w (Suc (reads w))) (fst (getLimiter (ClientIP r) w))))\<rparr>"

text \<open>
  The server answers the requests of a list one after the other: the statuses of the
  answers and the world afterwards.
\<close>

fun serve_all :: "request list \<Rightarrow> world \<Rightarrow> int list \<times> world" where
  "serve_all [] w = ([], w)"
| "serve_all (r # rs) w =
     (let out = ServeHTTP r w; rest = serve_all rs (result_world out)
      in (Status (result_context out) # fst rest, snd rest))"

text \<open>
  A request that takes three readings of the clock (two of \<open>LoggingMiddleware\<close>, between
  them the one of the limiter), as \<open>GET /ping\<close> does: the reading that the limiter takes
  for the \<open>k\<close>-th of the requests that follow the world \<open>w\<close>, counted from 0.
\<close>

definition limiter_reading :: "world \<Rightarrow> nat \<Rightarrow> time" where
  "limiter_reading w k = clock w (reads w + 3 * k + 1)"

text \<open>
  The bucket that \<open>getLimiter\<close> configures, and a client whose bucket is full when the
  first request of a burst arrives: a client not seen before, or one whose tokens, with
  those accrued since, reach the capacity.
\<close>

definition configured :: "limiter \<Rightarrow> bool" where
  "configured l \<longleftrightarrow> capacity l = 100 \<and> refill_rate l = Every (Minute div 100)"

definition bucket_full :: "request \<Rightarrow> world \<Rightarrow> bool" where
  "bucket_full r w =
     (case visitors w (ClientIP r) of
        None \<Rightarrow> True
      | Some l \<Rightarrow>
          configured l \<and> last_refill_time l \<le> limiter_reading w 0
          \<and> 100 \<le> current_tokens l
                    + of_int (limiter_reading w 0 - last_refill_time l) * refill_rate l)"

text \<open>
  The state of the client's bucket after \<open>k\<close> requests of a burst that started in the
  world \<open>w\<close> with the bucket full: at least \<open>100 - k\<close> tokens, and no more than that
  plus what accrued since the first request.
\<close>

definition burst_state :: "request \<Rightarrow> world \<Rightarrow> nat \<Rightarrow> world \<Rightarrow> bool" where
  "burst_state r w k w' \<longleftrightarrow>
     reads w' = reads w + 3 * k \<and> clock w' = clock w
     \<and> (if k = 0 then visitors w' = visitors w
        else (case visitors w' (ClientIP r) of
                None \<Rightarrow> False
              | Some l \<Rightarrow>
                  configured l \<and> last_refill_time l = limiter_reading w (k - 1)
                  \<and> 100 - of_nat k \<le> current_tokens l
                  \<and> current_tokens l
                      \<le> 100 - of_nat k
                        + of_int (limiter_reading w (k - 1) - limiter_reading w 0) / 600000000))"

text \<open>
  A clock for a burst on the initial world: the readings up to the one the limiter takes
  for the 101st request are a nanosecond apart, the next ones follow 600 ms later.
\<close>

definition burst_clock :: "nat \<Rightarrow> time" where
  "burst_clock n = (if n \<le> 305 then int n else 600000000 + int n)"

text \<open>
  The worlds that the server reaches: \<open>served n w\<close> when \<open>w\<close> is the world after \<open>n\<close>
  requests, whatever they were, from a start of \<open>main\<close>.
\<close>

inductive served :: "nat \<Rightarrow> world \<Rightarrow> bool" where
  start: "served 0 (initial_world clk us)"
| request: "served n w \<Longrightarrow> served (Suc n) (result_world (ServeHTTP r w))"

text \<open>
  The identifiers of the store after at most \<open>n\<close> requests, as long as the counter has
  not reached the end of the 64-bit range: the counter is at least 3 and has grown by at
  most \<open>n\<close>, and every stored identifier is positive and below it. A continuation keeps
  this when its result has it, one request later; a handler passes it on when it keeps
  it with every continuation that does.
\<close>

definition ids_ok :: "nat \<Rightarrow> world \<Rightarrow> bool" where
  "ids_ok n w \<longleftrightarrow>
     (int n + 3 < 2 ^ 63 \<longrightarrow>
        3 \<le> nextId w \<and> nextId w \<le> 3 + int n
        \<and> (\<forall>i\<in>set (map ID (articles w)). 1 \<le> i \<and> i < nextId w))"

definition keeps :: "nat \<Rightarrow> (gin_context \<times> world \<Rightarrow> outcome) \<Rightarrow> bool" where
  "keeps n k \<longleftrightarrow> (\<forall>c w. ids_ok n w \<longrightarrow> ids_ok (Suc n) (result_world (k (c, w))))"

definition passes_on :: "nat \<Rightarrow> handler \<Rightarrow> bool" where
  "passes_on n h \<longleftrightarrow> (\<forall>k. keeps n k \<longrightarrow> keeps n (h k))"

text \<open>\<open>GET /articles/abc\<close>, and its context when the router has bound the parameter.\<close>

definition get_article_abc :: request where
  "get_article_abc = get_ping\<lparr>URLPath := [''articles'', ''abc'']\<rparr>"

definition context_abc :: gin_context where
  "context_abc = (new_context get_article_abc)\<lparr>Params := [''id'' \<mapsto> ''abc'']\<rparr>"

section \<open>Evaluation rules\<close>

lemmas gin_defs = Set_key_def GetString_def GetHeader_def Param_def Header_Set_def Abort_def
  WriteHeader_def WriteHeaderNow_def bodyAllowedForStatus_def writeContentType_def Write_def
  JSON_def AbortWithStatusJSON_def AbortWithStatus_def Next_def new_context_def zero_response_def

lemmas env_defs = time_Now_def uuid_New_def wrap64_def

lemmas limiter_defs = Every_def NewLimiter_def Allow_at_def Minute_def getLimiter_def

lemmas middleware_defs = ErrorHandlerMiddleware_def RequestIDMiddleware_def LoggingMiddleware_def
  AuthMiddleware_def apiKeys_def allowedOrigins_def CORSMiddleware_def RateLimitMiddleware_def
  ContentTypeMiddleware_def

lemmas handler_defs = ping_def getArticles_def getArticleById_def createArticle_def
  updateArticle_def deleteArticle_def getStats_def validateArticle_def findArticleByID_def
  Atoi_def parse_decimal_def digit_def

lemmas engine_defs = middleware_def routes_def serveError_def ServeHTTP_def initial_world_def

lemmas observe_defs = result_context_def result_world_def returned_def request_ids_def
  json_field_def encode_def

lemmas example_defs = tick_def one_uuid_def zero_article_def post_ABC_def

section \<open>The correlation id in the envelope\<close>

text \<open>
  C1. The claim: the \<open>X-Request-ID\<close> header equals the \<open>request_id\<close> field of the envelope
  whenever the field is present, and the field is present in every response. Evaluated
  at \<open>POST /articles\<close> with a valid key and a valid body, on the initial store: the
  response has status 201 and the header carries the correlation id, but the envelope
  that \<open>createArticle\<close> writes has no \<open>request_id\<close> field.
\<close>

theorem createArticle_envelope_lacks_request_id:
  "(case ServeHTTP post_ABC (initial_world tick one_uuid) of
      Done (c, w) \<Rightarrow>
        Status c = 201
        \<and> Header c ''X-Request-ID'' = Some (one_uuid 0)
        \<and> Keys c ''request_id'' = Some (one_uuid 0)
        \<and> request_ids c = [None]
    | Panic s \<Rightarrow> False)"
  by (simp add: gin_defs env_defs limiter_defs middleware_defs handler_defs engine_defs
       observe_defs example_defs Let_def)

section \<open>The authentication stage\<close>

text \<open>
  C2. The claim: after the authentication stage a role is present in the context if
  and only if the key was found in the mapping; for a key that is not, the stage aborts
  with 401 and stores no role. Evaluated at \<open>PUT /articles/1\<close> with the key
  \<open>wrong-key\<close>: the stage aborts with 401 and the handler does not run (the store is
  as before), but the stage goes on after the abort and stores the role \<open>""\<close>.
\<close>

theorem AuthMiddleware_stores_role_after_abort:
  "apiKeys ''wrong-key'' = None
   \<and> (case ServeHTTP put_wrong_key (initial_world tick one_uuid) of
        Done (c, w) \<Rightarrow>
          Status c = 401 \<and> aborted c
          \<and> Keys c ''role'' = Some []
          \<and> articles w = articles (initial_world tick one_uuid)
      | Panic s \<Rightarrow> False)"
  by (simp add: gin_defs env_defs limiter_defs middleware_defs handler_defs engine_defs
       observe_defs example_defs put_wrong_key_def Let_def)

section \<open>Recovery\<close>

text \<open>
  C3. The claim: when a later stage or handler panics, Recovery answers 500 with an
  envelope whose error string is \<open>"internal server error"\<close> and which carries the
  correlation id already assigned. Evaluated with a faulty handler behind the six
  middlewares of \<open>main\<close>: status 500 and the correlation id are as claimed, the error
  string is \<open>"interal server error"\<close>, and the JSON name of the \<open>Success\<close> field is \<open>id\<close>.
\<close>

theorem Recovery_error_string:
  "(case Next (run_chain (middleware @ [faulty])) (new_context get_ping, initial_world tick one_uuid) of
      Done (c, w) \<Rightarrow>
        Status c = 500 \<and> aborted c
        \<and> Bodies c = [JSONBody \<lparr>Success = False, Data = None, Message = [],
                                 Error = ''interal server error'', RequestID = one_uuid 0\<rparr>]
        \<and> map (\<lambda>b. case b of JSONBody r \<Rightarrow> map fst (encode r) | PlainBody t \<Rightarrow> []) (Bodies c)
            = [[''id'', ''error'', ''request_id'']]
        \<and> Header c ''X-Request-ID'' = Some (one_uuid 0)
    | Panic s \<Rightarrow> False)
   \<and> ''interal server error'' \<noteq> ''internal server error''"
  by (simp add: gin_defs env_defs limiter_defs middleware_defs engine_defs
       observe_defs example_defs get_ping_def faulty_def Let_def)

section \<open>The route of the delete operation\<close>

text \<open>
  C7. The claim: the service has a DELETE operation at \<open>/articles/{id}\<close>, protected by
  the key, answering 200 when the article exists and is removed. Evaluated at
  \<open>DELETE /articles/1\<close> with the admin key on the initial store, where article 1
  exists: no route matches, the answer is gin's 404 and the store is as before. The
  route that \<open>main\<close> registers is \<open>/article/:id\<close>; there the article is removed.
\<close>

theorem delete_route_is_misspelt:
  "(case ServeHTTP (delete_at ''articles'' ''1'') (initial_world tick one_uuid) of
      Done (c, w) \<Rightarrow>
        Status c = 404 \<and> Bodies c = [PlainBody ''404 page not found'']
        \<and> articles w = articles (initial_world tick one_uuid)
        \<and> map ID (articles w) = [1, 2]
    | Panic s \<Rightarrow> False)
   \<and> (case ServeHTTP (delete_at ''article'' ''1'') (initial_world tick one_uuid) of
        Done (c, w) \<Rightarrow>
          Status c = 200
          \<and> Bodies c = [JSONBody (zero_response\<lparr>Success := True, Message := ''article deleted''\<rparr>)]
          \<and> map ID (articles w) = [2]
      | Panic s \<Rightarrow> False)"
  by (simp add: gin_defs env_defs limiter_defs middleware_defs handler_defs engine_defs
       observe_defs example_defs delete_at_def Let_def)

section \<open>The create operation\<close>

text \<open>
  C4. For every call of \<open>createArticle\<close> with a record bound from the body, on a context
  in which nothing is written yet: if the title, the content or the author is empty,
  the world is exactly as before (so the collection and the counter \<open>nextId\<close> are) and
  the answer is the validation error, status 400; otherwise the record gets the
  identifier \<open>nextId\<close>, its two stamps are the next two readings of the clock, it is
  appended to the collection, \<open>nextId\<close> is incremented, and the answer is 201 with the
  stored record.
\<close>

theorem createArticle_contract:
  assumes "Body (Request c) = Bound input" and "\<not> Written c"
  shows "if Title input = [] \<or> Content input = [] \<or> Author input = []
         then returned (createArticle k (c, w))
              \<and> result_world (createArticle k (c, w)) = w
              \<and> Status (result_context (createArticle k (c, w))) = 400
              \<and> Bodies (result_context (createArticle k (c, w)))
                  = Bodies c @ [JSONBody (zero_response\<lparr>Success := False,
                                            Error := ''http: no such file''\<rparr>)]
         else returned (createArticle k (c, w))
              \<and> articles (result_world (createArticle k (c, w)))
                  = articles w @ [input\<lparr>ID := nextId w, CreatedAt := clock w (reads w),
                                         UpdatedAt := clock w (Suc (reads w))\<rparr>]
              \<and> nextId (result_world (createArticle k (c, w))) = wrap64 (nextId w + 1)
              \<and> Status (result_context (createArticle k (c, w))) = 201
              \<and> Bodies (result_context (createArticle k (c, w)))
                  = Bodies c @ [JSONBody (zero_response\<lparr>Success := True,
                       Data := Some (OneArticle (input\<lparr>ID := nextId w,
                                 CreatedAt := clock w (reads w),
                                 UpdatedAt := clock w (Suc (reads w))\<rparr>))\<rparr>)]"
  using assms
  by (simp add: createArticle_def validateArticle_def gin_defs env_defs observe_defs Let_def)

theorem createArticle_contract_witness:
  "Body (Request (new_context post_ABC))
     = Bound (zero_article\<lparr>Title := ''A'', Content := ''B'', Author := ''C''\<rparr>)
   \<and> \<not> Written (new_context post_ABC)
   \<and> articles (result_world (createArticle Done (new_context post_ABC, initial_world tick one_uuid)))
       = articles (initial_world tick one_uuid)
         @ [\<lparr>ID = 3, Title = ''A'', Content = ''B'', Author = ''C'',
             CreatedAt = 4000, UpdatedAt = 5000\<rparr>]
   \<and> nextId (result_world (createArticle Done (new_context post_ABC, initial_world tick one_uuid))) = 4
   \<and> Status (result_context (createArticle Done (new_context post_ABC, initial_world tick one_uuid))) = 201
   \<and> Body (Request (new_context post_no_title))
       = Bound (zero_article\<lparr>Content := ''B'', Author := ''C''\<rparr>)
   \<and> \<not> Written (new_context post_no_title)
   \<and> result_world (createArticle Done (new_context post_no_title, initial_world tick one_uuid))
       = initial_world tick one_uuid
   \<and> Status (result_context (createArticle Done (new_context post_no_title, initial_world tick one_uuid))) = 400"
  using createArticle_contract [of "new_context post_ABC"
          "zero_article\<lparr>Title := ''A'', Content := ''B'', Author := ''C''\<rparr>"
          Done "initial_world tick one_uuid"]
        createArticle_contract [of "new_context post_no_title"
          "zero_article\<lparr>Content := ''B'', Author := ''C''\<rparr>"
          Done "initial_world tick one_uuid"]
  by (simp add: new_context_def post_ABC_def post_no_title_def zero_article_def
        initial_world_def tick_def wrap64_def)

section \<open>The update operation\<close>

lemma find_from_absent:
  "\<forall>a\<in>set as. ID a \<noteq> aid \<Longrightarrow> find_from i aid as = (None, - 1)"
  by (induction as arbitrary: i) auto

lemma find_from_present:
  "\<not> (\<forall>a\<in>set as. ID a \<noteq> aid) \<Longrightarrow>
     \<exists>j<length as. find_from i aid as = (Some (as ! j), i + int j) \<and> ID (as ! j) = aid
        \<and> (\<forall>j'<j. ID (as ! j') \<noteq> aid)"
proof (induction as arbitrary: i)
  case Nil
  then show ?case by simp
next
  case (Cons a as)
  show ?case
  proof (cases "ID a = aid")
    case True
    then have "find_from i aid (a # as) = (Some ((a # as) ! 0), i + int 0)
        \<and> ID ((a # as) ! 0) = aid \<and> (\<forall>j'<0. ID ((a # as) ! j') \<noteq> aid)"
      by simp
    then show ?thesis by blast
  next
    case False
    with Cons.prems have "\<not> (\<forall>a\<in>set as. ID a \<noteq> aid)" by simp
    from Cons.IH [OF this, of "i + 1"] obtain j where j: "j < length as"
      "find_from (i + 1) aid as = (Some (as ! j), i + 1 + int j)" "ID (as ! j) = aid"
      "\<forall>j'<j. ID (as ! j') \<noteq> aid" by blast
    have "\<forall>j'<Suc j. ID ((a # as) ! j') \<noteq> aid"
      using False j(4) by (auto simp: less_Suc_eq_0_disj)
    with j False have "Suc j < length (a # as) \<and>
        find_from i aid (a # as) = (Some ((a # as) ! Suc j), i + int (Suc j))
        \<and> ID ((a # as) ! Suc j) = aid \<and> (\<forall>j'<Suc j. ID ((a # as) ! j') \<noteq> aid)"
      by simp
    then show ?thesis by blast
  qed
qed

text \<open>
  C5, as the claim states it: after an update the \<open>updated_at\<close> of the record is
  strictly later than before. \<open>updateArticle\<close> stores the reading that \<open>time.Now()\<close>
  returns. With \<open>PUT /articles/1\<close> on the initial store, under a clock that was set back
  after the start the new stamp is earlier than the old one, and under a clock whose
  readings do not advance it is the same.
\<close>

theorem updated_at_not_strictly_later:
  "Status (result_context (ServeHTTP put_A2 (initial_world set_back one_uuid))) = 200
   \<and> Title (articles (result_world (ServeHTTP put_A2 (initial_world set_back one_uuid))) ! 0) = ''A2''
   \<and> UpdatedAt (articles (initial_world set_back one_uuid) ! 0) = 9001
   \<and> UpdatedAt (articles (result_world (ServeHTTP put_A2 (initial_world set_back one_uuid))) ! 0) = 5006
   \<and> Status (result_context (ServeHTTP put_A2 (initial_world stopped one_uuid))) = 200
   \<and> \<not> UpdatedAt (articles (initial_world stopped one_uuid) ! 0)
        < UpdatedAt (articles (result_world (ServeHTTP put_A2 (initial_world stopped one_uuid))) ! 0)"
  by (simp add: gin_defs env_defs limiter_defs middleware_defs handler_defs engine_defs
       observe_defs example_defs put_A2_def set_back_def stopped_def Let_def)

text \<open>
  C5, amended. For every call of \<open>updateArticle\<close> on a context in which nothing is
  written yet: if no record has the identifier of the path, the answer is 404 "article
  not found" and the world is as before; otherwise, for the first record \<open>i\<close> with
  that identifier, title, content and author are replaced by those of the input,
  \<open>updated_at\<close> becomes the reading that the clock gives during the call, the
  identifier and \<open>created_at\<close> of the record, every other record, the length of the
  collection and \<open>nextId\<close> are as before, and the answer is 200 with the updated record.
\<close>

theorem updateArticle_contract:
  assumes "\<not> Written c"
  shows "if \<forall>a\<in>set (articles w). ID a \<noteq> fst (Atoi (Param ''id'' c))
         then returned (updateArticle k (c, w))
              \<and> result_world (updateArticle k (c, w)) = w
              \<and> Status (result_context (updateArticle k (c, w))) = 404
              \<and> Bodies (result_context (updateArticle k (c, w)))
                  = Bodies c @ [JSONBody (zero_response\<lparr>Success := False,
                                            Error := ''article not found''\<rparr>)]
         else \<exists>i<length (articles w).
                ID (articles w ! i) = fst (Atoi (Param ''id'' c))
              \<and> returned (updateArticle k (c, w))
              \<and> articles (result_world (updateArticle k (c, w)))
                  = (articles w)[i := (articles w ! i)\<lparr>Title := Title (bound_input c),
                        Content := Content (bound_input c), Author := Author (bound_input c),
                        UpdatedAt := clock w (reads w)\<rparr>]
              \<and> ID (articles (result_world (updateArticle k (c, w))) ! i) = ID (articles w ! i)
              \<and> CreatedAt (articles (result_world (updateArticle k (c, w))) ! i)
                  = CreatedAt (articles w ! i)
              \<and> UpdatedAt (articles (result_world (updateArticle k (c, w))) ! i)
                  = clock w (reads w)
              \<and> length (articles (result_world (updateArticle k (c, w)))) = length (articles w)
              \<and> (\<forall>j<length (articles w). j \<noteq> i \<longrightarrow>
                    articles (result_world (updateArticle k (c, w))) ! j = articles w ! j)
              \<and> nextId (result_world (updateArticle k (c, w))) = nextId w
              \<and> Status (result_context (updateArticle k (c, w))) = 200
              \<and> Bodies (result_context (updateArticle k (c, w)))
                  = Bodies c @ [JSONBody (zero_response\<lparr>Success := True,
                       Data := Some (OneArticle ((articles w ! i)\<lparr>Title := Title (bound_input c),
                        Content := Content (bound_input c), Author := Author (bound_input c),
                        UpdatedAt := clock w (reads w)\<rparr>))\<rparr>)]"
proof (cases "\<forall>a\<in>set (articles w). ID a \<noteq> fst (Atoi (Param ''id'' c))")
  case True
  from find_from_absent [OF True, of 0] assms True show ?thesis
    by (simp add: updateArticle_def findArticleByID_def gin_defs env_defs observe_defs
          Let_def split_beta)
next
  case False
  from find_from_present [OF False, of 0] obtain i where i: "i < length (articles w)"
    "find_from 0 (fst (Atoi (Param ''id'' c))) (articles w) = (Some (articles w ! i), int i)"
    "ID (articles w ! i) = fst (Atoi (Param ''id'' c))" by auto
  from i assms have "ID (articles w ! i) = fst (Atoi (Param ''id'' c))
              \<and> returned (updateArticle k (c, w))
              \<and> articles (result_world (updateArticle k (c, w)))
                  = (articles w)[i := (articles w ! i)\<lparr>Title := Title (bound_input c),
                        Content := Content (bound_input c), Author := Author (bound_input c),
                        UpdatedAt := clock w (reads w)\<rparr>]
              \<and> nextId (result_world (updateArticle k (c, w))) = nextId w
              \<and> Status (result_context (updateArticle k (c, w))) = 200
              \<and> Bodies (result_context (updateArticle k (c, w)))
                  = Bodies c @ [JSONBody (zero_response\<lparr>Success := True,
                       Data := Some (OneArticle ((articles w ! i)\<lparr>Title := Title (bound_input c),
                        Content := Content (bound_input c), Author := Author (bound_input c),
                        UpdatedAt := clock w (reads w)\<rparr>))\<rparr>)]"
    by (simp add: updateArticle_def findArticleByID_def gin_defs env_defs observe_defs
          bound_input_def Let_def split_beta)
  with i(1) False show ?thesis by auto
qed

theorem updateArticle_contract_witness:
  "\<not> Written ((new_context put_A2)\<lparr>Params := [''id'' \<mapsto> ''1'']\<rparr>)
   \<and> articles (result_world (updateArticle Done
         ((new_context put_A2)\<lparr>Params := [''id'' \<mapsto> ''1'']\<rparr>, initial_world tick one_uuid)))
       = [\<lparr>ID = 1, Title = ''A2'', Content = [], Author = [], CreatedAt = 0, UpdatedAt = 4000\<rparr>,
          \<lparr>ID = 2, Title = ''Web Development with Gin'', Content = ''Gin is a web framework...'',
            Author = ''Jane Smith'', CreatedAt = 2000, UpdatedAt = 3000\<rparr>]
   \<and> Status (result_context (updateArticle Done
         ((new_context put_A2)\<lparr>Params := [''id'' \<mapsto> ''1'']\<rparr>, initial_world tick one_uuid))) = 200
   \<and> \<not> Written ((new_context put_A2)\<lparr>Params := [''id'' \<mapsto> ''7'']\<rparr>)
   \<and> result_world (updateArticle Done
         ((new_context put_A2)\<lparr>Params := [''id'' \<mapsto> ''7'']\<rparr>, initial_world tick one_uuid))
       = initial_world tick one_uuid
   \<and> Status (result_context (updateArticle Done
         ((new_context put_A2)\<lparr>Params := [''id'' \<mapsto> ''7'']\<rparr>, initial_world tick one_uuid))) = 404"
  using updateArticle_contract [of "(new_context put_A2)\<lparr>Params := [''id'' \<mapsto> ''1'']\<rparr>"
          "initial_world tick one_uuid" Done]
        updateArticle_contract [of "(new_context put_A2)\<lparr>Params := [''id'' \<mapsto> ''7'']\<rparr>"
          "initial_world tick one_uuid" Done]
  by (auto simp add: new_context_def put_A2_def zero_article_def initial_world_def tick_def
        bound_input_def Param_def Atoi_def parse_decimal_def digit_def less_Suc_eq_0_disj
        less_Suc_eq)

section \<open>The middleware chain, stage by stage\<close>

lemma untouched_Header_Set: "untouched r (Header_Set k v c) = untouched r c"
  by (simp add: untouched_def Header_Set_def)

lemma untouched_Set_key: "untouched r (Set_key k v c) = untouched r c"
  by (simp add: untouched_def Set_key_def)

lemma Params_Header_Set: "Params (Header_Set k v c) = Params c"
  by (simp add: Header_Set_def)

lemma Params_Set_key: "Params (Set_key k v c) = Params c"
  by (simp add: Set_key_def)

lemma Next_untouched: "untouched r c \<Longrightarrow> Next k (c, w) = k (c, w)"
  by (simp add: Next_def untouched_def)

lemma ErrorHandler_done:
  "untouched r c \<Longrightarrow> k (c, w) = Done s' \<Longrightarrow> ErrorHandlerMiddleware k (c, w) = Done s'"
  by (simp add: ErrorHandlerMiddleware_def Next_untouched)

lemma RequestID_pass:
  assumes "untouched r c"
  shows "\<exists>c'. untouched r c' \<and> Params c' = Params c
           \<and> (\<forall>k. RequestIDMiddleware k (c, w) = k (c', w\<lparr>issued := Suc (issued w)\<rparr>))"
proof -
  let ?c' = "Header_Set ''X-Request-ID'' (uuids w (issued w))
               (Set_key ''request_id'' (uuids w (issued w)) c)"
  have u: "untouched r ?c'" using assms by (simp add: untouched_Header_Set untouched_Set_key)
  have "\<forall>k. RequestIDMiddleware k (c, w) = k (?c', w\<lparr>issued := Suc (issued w)\<rparr>)"
    by (simp add: RequestIDMiddleware_def uuid_New_def Next_untouched [OF u])
  with u show ?thesis by (intro exI [of _ ?c']) (simp add: Params_Header_Set Params_Set_key)
qed

lemma Logging_done:
  "untouched r c \<Longrightarrow> k (c, w\<lparr>reads := Suc (reads w)\<rparr>) = Done (c', w') \<Longrightarrow>
     LoggingMiddleware k (c, w) = Done (c', w'\<lparr>reads := Suc (reads w')\<rparr>)"
  by (simp add: LoggingMiddleware_def time_Now_def Next_untouched)

lemma CORS_pass:
  assumes "untouched r c" and "Method r \<noteq> ''OPTIONS''"
  shows "\<exists>c'. untouched r c' \<and> Params c' = Params c \<and> (\<forall>k. CORSMiddleware k (c, w) = k (c', w))"
proof -
  obtain c1 where c1: "c1 = (if allowedOrigins (GetHeader ''Origin'' c)
             then Header_Set ''Access-Control-Allow-Origin'' (GetHeader ''Origin'' c) c else c)"
    by simp
  obtain c3 where c3: "c3 = Header_Set ''Access-Control-Allow-Headers''
               ''Content-type, X-API-Key, X-Request-ID''
               (Header_Set ''Access-Control-Allow-Methods'' ''GET, POST, PUT, DELETE, OPTIONS'' c1)"
    by simp
  have u1: "untouched r c1 \<and> Params c1 = Params c"
    using assms(1) c1 by (simp add: untouched_Header_Set Params_Header_Set)
  then have u: "untouched r c3" and p: "Params c3 = Params c"
    using c3 by (simp_all add: untouched_Header_Set Params_Header_Set)
  have m: "Method (Request c3) \<noteq> ''OPTIONS''" using u assms(2) by (simp add: untouched_def)
  have "\<forall>k. CORSMiddleware k (c, w) = k (c3, w)"
    using m Next_untouched [OF u] by (simp add: CORSMiddleware_def Let_def flip: c1 c3)
  with u p show ?thesis by blast
qed

lemma getLimiter_frame:
  "snd (getLimiter ip w) = w\<lparr>visitors := (visitors w)(ip \<mapsto> fst (getLimiter ip w))\<rparr>"
  by (auto simp add: getLimiter_def Let_def fun_upd_idem split: option.splits)

lemma RateLimit_step:
  assumes "untouched r c"
  shows "\<exists>c'. untouched r c' \<and> Params c' = Params c
     \<and> (\<forall>k. RateLimitMiddleware k (c, w) =
          (let l = fst (getLimiter (ClientIP r) w);
               res = Allow_at (clock w (reads w)) l;
               w' = w\<lparr>reads := Suc (reads w), visitors := (visitors w)(ClientIP r \<mapsto> snd res)\<rparr>
           in if fst res then k (c', w')
              else Done (AbortWithStatusJSON 429
                        (zero_response\<lparr>Success := False,
                           Error := ''too many requests, limit exceeded'',
                           RequestID := GetString ''request_id'' c'\<rparr>) c', w')))"
proof -
  obtain c1 where c1: "c1 = Header_Set ''X-RateLimit-Limit'' ''100'' c" by simp
  have u: "untouched r c1" and p: "Params c1 = Params c"
    using assms c1 by (simp_all add: untouched_Header_Set Params_Header_Set)
  have ip: "ClientIP (Request c) = ClientIP r" using assms by (simp add: untouched_def)
  obtain l where gl: "getLimiter (ClientIP r) w = (l, w\<lparr>visitors := (visitors w)(ClientIP r \<mapsto> l)\<rparr>)"
    using getLimiter_frame [of "ClientIP r" w] by (cases "getLimiter (ClientIP r) w") simp
  have "\<forall>k. RateLimitMiddleware k (c, w) =
          (let l = fst (getLimiter (ClientIP r) w);
               res = Allow_at (clock w (reads w)) l;
               w' = w\<lparr>reads := Suc (reads w), visitors := (visitors w)(ClientIP r \<mapsto> snd res)\<rparr>
           in if fst res then k (c1, w')
              else Done (AbortWithStatusJSON 429
                        (zero_response\<lparr>Success := False,
                           Error := ''too many requests, limit exceeded'',
                           RequestID := GetString ''request_id'' c1\<rparr>) c1, w'))"
    using Next_untouched [OF u]
    by (simp add: RateLimitMiddleware_def Let_def split_beta time_Now_def ip gl flip: c1)
  with u p show ?thesis by blast
qed

lemma RateLimit_pass:
  assumes "untouched r c" and "fst (Allow_at (clock w (reads w)) (fst (getLimiter (ClientIP r) w)))"
  shows "\<exists>c'. untouched r c' \<and> Params c' = Params c
     \<and> (\<forall>k. RateLimitMiddleware k (c, w) =
           k (c', w\<lparr>reads := Suc (reads w), visitors := (visitors w)(ClientIP r \<mapsto>
                  snd (Allow_at (clock w (reads w)) (fst (getLimiter (ClientIP r) w))))\<rparr>))"
  using RateLimit_step [OF assms(1), of w] assms(2) by (simp add: Let_def)

lemma RateLimit_reject:
  assumes "untouched r c" and "\<not> fst (Allow_at (clock w (reads w)) (fst (getLimiter (ClientIP r) w)))"
  shows "\<exists>c'. Status c' = 429 \<and> Written c' \<and> aborted c' \<and> (\<exists>e. Bodies c' = [JSONBody e])
     \<and> (\<forall>k. RateLimitMiddleware k (c, w) =
           Done (c', w\<lparr>reads := Suc (reads w), visitors := (visitors w)(ClientIP r \<mapsto>
                  snd (Allow_at (clock w (reads w)) (fst (getLimiter (ClientIP r) w))))\<rparr>))"
proof -
  from RateLimit_step [OF assms(1), of w] assms(2) obtain c1 where c1: "untouched r c1"
    "\<forall>k. RateLimitMiddleware k (c, w) =
        Done (AbortWithStatusJSON 429
                        (zero_response\<lparr>Success := False,
                           Error := ''too many requests, limit exceeded'',
                           RequestID := GetString ''request_id'' c1\<rparr>) c1,
          w\<lparr>reads := Suc (reads w), visitors := (visitors w)(ClientIP r \<mapsto>
                  snd (Allow_at (clock w (reads w)) (fst (getLimiter (ClientIP r) w))))\<rparr>)"
    by (auto simp add: Let_def)
  from c1(1) have "Status (AbortWithStatusJSON 429
                        (zero_response\<lparr>Success := False,
                           Error := ''too many requests, limit exceeded'',
                           RequestID := GetString ''request_id'' c1\<rparr>) c1) = 429"
     "aborted (AbortWithStatusJSON 429
                        (zero_response\<lparr>Success := False,
                           Error := ''too many requests, limit exceeded'',
                           RequestID := GetString ''request_id'' c1\<rparr>) c1)"
     "Written (AbortWithStatusJSON 429
                        (zero_response\<lparr>Success := False,
                           Error := ''too many requests, limit exceeded'',
                           RequestID := GetString ''request_id'' c1\<rparr>) c1)"
     "\<exists>e. Bodies (AbortWithStatusJSON 429
                        (zero_response\<lparr>Success := False,
                           Error := ''too many requests, limit exceeded'',
                           RequestID := GetString ''request_id'' c1\<rparr>) c1) = [JSONBody e]"
    by (simp_all add: untouched_def gin_defs Let_def)
  with c1(2) show ?thesis by blast
qed

lemma ContentType_pass:
  assumes "untouched r c" and "content_type_ok r"
  shows "ContentTypeMiddleware k (c, w) = k (c, w)"
  using assms Next_untouched [OF assms(1)]
  by (auto simp add: ContentTypeMiddleware_def content_type_ok_def GetHeader_def untouched_def)

lemma Auth_pass:
  assumes "untouched r c" and "ReqHeader r ''X-API-Key'' = Some key" and "apiKeys key = Some role"
  shows "\<exists>c'. untouched r c' \<and> Params c' = Params c \<and> GetString ''role'' c' = role
           \<and> (\<forall>k. AuthMiddleware k (c, w) = k (c', w))"
proof -
  obtain c2 where c2: "c2 = Set_key ''role'' role c" by simp
  have u: "untouched r c2" and p: "Params c2 = Params c" and g: "GetString ''role'' c2 = role"
    using assms(1) c2 by (simp_all add: untouched_Set_key Params_Set_key, simp add: GetString_def Set_key_def)
  have h: "GetHeader ''X-API-Key'' c = key" using assms(1,2) by (simp add: GetHeader_def untouched_def)
  have "\<forall>k. AuthMiddleware k (c, w) = k (c2, w)"
    using Next_untouched [OF u] assms(3) by (simp add: AuthMiddleware_def Let_def h flip: c2)
  with u p g show ?thesis by blast
qed

lemma getLimiter_fst_cong:
  "visitors w' = visitors w \<Longrightarrow> fst (getLimiter ip w') = fst (getLimiter ip w)"
  by (simp add: getLimiter_def Let_def split: option.splits)

lemma run_chain_middleware:
  "run_chain (middleware @ hs) =
     ErrorHandlerMiddleware (RequestIDMiddleware (LoggingMiddleware (CORSMiddleware
       (RateLimitMiddleware (ContentTypeMiddleware (run_chain hs))))))"
  by (simp add: middleware_def)

lemma middleware_pass:
  assumes u: "untouched r c" and m: "Method r \<noteq> ''OPTIONS''" and ct: "content_type_ok r"
    and al: "limiter_allows r w"
    and tail: "\<And>c'. untouched r c' \<Longrightarrow> Params c' = Params c \<Longrightarrow>
                 \<exists>cf. run_chain hs (c', after_limiter r w) = Done (cf, wz) \<and> P cf"
  shows "\<exists>cf. run_chain (middleware @ hs) (c, w) = Done (cf, wz\<lparr>reads := Suc (reads wz)\<rparr>) \<and> P cf"
proof -
  let ?w1 = "w\<lparr>issued := Suc (issued w)\<rparr>"
  let ?w2 = "?w1\<lparr>reads := Suc (reads ?w1)\<rparr>"
  from RequestID_pass [OF u, of w] obtain c1 where c1: "untouched r c1" "Params c1 = Params c"
    "\<forall>k. RequestIDMiddleware k (c, w) = k (c1, ?w1)" by blast
  from CORS_pass [OF c1(1) m, of ?w2] obtain c3 where c3: "untouched r c3" "Params c3 = Params c1"
    "\<forall>k. CORSMiddleware k (c1, ?w2) = k (c3, ?w2)" by blast
  have al2: "fst (Allow_at (clock ?w2 (reads ?w2)) (fst (getLimiter (ClientIP r) ?w2)))"
    using al getLimiter_fst_cong [of ?w2 w "ClientIP r"] by (simp add: limiter_allows_def)
  from RateLimit_pass [OF c3(1) al2] obtain c4 where c4: "untouched r c4" "Params c4 = Params c3"
    "\<forall>k. RateLimitMiddleware k (c3, ?w2) =
           k (c4, ?w2\<lparr>reads := Suc (reads ?w2), visitors := (visitors ?w2)(ClientIP r \<mapsto>
                  snd (Allow_at (clock ?w2 (reads ?w2)) (fst (getLimiter (ClientIP r) ?w2))))\<rparr>)"
    by blast
  have w3: "?w2\<lparr>reads := Suc (reads ?w2), visitors := (visitors ?w2)(ClientIP r \<mapsto>
                  snd (Allow_at (clock ?w2 (reads ?w2)) (fst (getLimiter (ClientIP r) ?w2))))\<rparr>
            = after_limiter r w"
    using getLimiter_fst_cong [of ?w2 w "ClientIP r"] by (simp add: after_limiter_def)
  from tail [OF c4(1)] c4(2) c3(2) c1(2) obtain cf where
    cf: "run_chain hs (c4, after_limiter r w) = Done (cf, wz)" "P cf" by auto
  have "ContentTypeMiddleware (run_chain hs) (c4, after_limiter r w) = Done (cf, wz)"
    using ContentType_pass [OF c4(1) ct] cf(1) by simp
  then have "RateLimitMiddleware (ContentTypeMiddleware (run_chain hs)) (c3, ?w2) = Done (cf, wz)"
    using c4(3) w3 by simp
  then have "CORSMiddleware (RateLimitMiddleware (ContentTypeMiddleware (run_chain hs))) (c1, ?w2)
      = Done (cf, wz)"
    using c3(3) by simp
  then have "LoggingMiddleware (CORSMiddleware (RateLimitMiddleware (ContentTypeMiddleware
      (run_chain hs)))) (c1, ?w1) = Done (cf, wz\<lparr>reads := Suc (reads wz)\<rparr>)"
    by (rule Logging_done [OF c1(1)])
  then have "RequestIDMiddleware (LoggingMiddleware (CORSMiddleware (RateLimitMiddleware
      (ContentTypeMiddleware (run_chain hs))))) (c, w) = Done (cf, wz\<lparr>reads := Suc (reads wz)\<rparr>)"
    using c1(3) by simp
  then have "run_chain (middleware @ hs) (c, w) = Done (cf, wz\<lparr>reads := Suc (reads wz)\<rparr>)"
    unfolding run_chain_middleware by (rule ErrorHandler_done [OF u])
  with cf(2) show ?thesis by blast
qed

lemma JSON_untouched:
  assumes "untouched r c" and "bodyAllowedForStatus code" and "0 < code"
  shows "Status (JSON code obj c) = code" and "Bodies (JSON code obj c) = [JSONBody obj]"
    and "Written (JSON code obj c)"
  using assms by (auto simp add: untouched_def gin_defs Let_def)

lemma createArticle_valid:
  assumes "untouched r c" and "Body r = Bound input"
    and "Title input \<noteq> []" and "Content input \<noteq> []" and "Author input \<noteq> []"
  shows "createArticle k (c, w) =
     Done (JSON 201 (zero_response\<lparr>Success := True,
              Data := Some (OneArticle (input\<lparr>ID := nextId w,
                        CreatedAt := clock w (reads w), UpdatedAt := clock w (Suc (reads w))\<rparr>))\<rparr>) c,
           w\<lparr>nextId := wrap64 (nextId w + 1), reads := Suc (Suc (reads w)),
             articles := articles w @ [input\<lparr>ID := nextId w,
                        CreatedAt := clock w (reads w), UpdatedAt := clock w (Suc (reads w))\<rparr>]\<rparr>)"
  using assms
  by (simp add: createArticle_def validateArticle_def untouched_def time_Now_def Let_def)

lemma after_limiter_frame:
  "articles (after_limiter r w) = articles w"
  "nextId (after_limiter r w) = nextId w"
  "clock (after_limiter r w) = clock w"
  "reads (after_limiter r w) = reads w + 2"
  by (simp_all add: after_limiter_def)
section \<open>The token bucket\<close>

lemma middleware_reject:
  assumes u: "untouched r c" and m: "Method r \<noteq> ''OPTIONS''" and al: "\<not> limiter_allows r w"
  shows "\<exists>cf. run_chain (middleware @ hs) (c, w)
               = Done (cf, (after_limiter r w)\<lparr>reads := reads w + 3\<rparr>)
             \<and> Status cf = 429 \<and> Written cf"
proof -
  let ?w1 = "w\<lparr>issued := Suc (issued w)\<rparr>"
  let ?w2 = "?w1\<lparr>reads := Suc (reads ?w1)\<rparr>"
  let ?k = "ContentTypeMiddleware (run_chain hs)"
  from RequestID_pass [OF u, of w] obtain c1 where c1: "untouched r c1"
    "\<forall>k. RequestIDMiddleware k (c, w) = k (c1, ?w1)" by blast
  from CORS_pass [OF c1(1) m, of ?w2] obtain c3 where c3: "untouched r c3"
    "\<forall>k. CORSMiddleware k (c1, ?w2) = k (c3, ?w2)" by blast
  have al2: "\<not> fst (Allow_at (clock ?w2 (reads ?w2)) (fst (getLimiter (ClientIP r) ?w2)))"
    using al getLimiter_fst_cong [of ?w2 w "ClientIP r"] by (simp add: limiter_allows_def)
  from RateLimit_reject [OF c3(1) al2] obtain c4 where c4: "Status c4 = 429" "Written c4"
    "\<forall>k. RateLimitMiddleware k (c3, ?w2) =
           Done (c4, ?w2\<lparr>reads := Suc (reads ?w2), visitors := (visitors ?w2)(ClientIP r \<mapsto>
                  snd (Allow_at (clock ?w2 (reads ?w2)) (fst (getLimiter (ClientIP r) ?w2))))\<rparr>)"
    by blast
  have w3: "?w2\<lparr>reads := Suc (reads ?w2), visitors := (visitors ?w2)(ClientIP r \<mapsto>
                  snd (Allow_at (clock ?w2 (reads ?w2)) (fst (getLimiter (ClientIP r) ?w2))))\<rparr>
            = after_limiter r w"
    using getLimiter_fst_cong [of ?w2 w "ClientIP r"] by (simp add: after_limiter_def)
  have "RateLimitMiddleware ?k (c3, ?w2) = Done (c4, after_limiter r w)"
    using c4(3) w3 by simp
  then have "CORSMiddleware (RateLimitMiddleware ?k) (c1, ?w2) = Done (c4, after_limiter r w)"
    using c3(2) by simp
  then have "LoggingMiddleware (CORSMiddleware (RateLimitMiddleware ?k)) (c1, ?w1)
      = Done (c4, (after_limiter r w)\<lparr>reads := Suc (reads (after_limiter r w))\<rparr>)"
    by (rule Logging_done [OF c1(1)])
  then have "RequestIDMiddleware (LoggingMiddleware (CORSMiddleware (RateLimitMiddleware ?k))) (c, w)
      = Done (c4, (after_limiter r w)\<lparr>reads := Suc (reads (after_limiter r w))\<rparr>)"
    using c1(2) by simp
  then have "run_chain (middleware @ hs) (c, w)
      = Done (c4, (after_limiter r w)\<lparr>reads := Suc (reads (after_limiter r w))\<rparr>)"
    unfolding run_chain_middleware by (rule ErrorHandler_done [OF u])
  with c4(1,2) show ?thesis by (simp add: after_limiter_def numeral_3_eq_3)
qed

lemma ServeHTTP_ping:
  assumes "Method r = ''GET''" and "URLPath r = [''ping'']"
  shows "returned (ServeHTTP r w)"
    and "result_world (ServeHTTP r w) = (after_limiter r w)\<lparr>reads := reads w + 3\<rparr>"
    and "Status (result_context (ServeHTTP r w)) = (if limiter_allows r w then 200 else 429)"
proof -
  let ?c0 = "(new_context r)\<lparr>Params := map_of []\<rparr>"
  let ?wz = "(after_limiter r w)\<lparr>reads := reads w + 3\<rparr>"
  have route: "find_route routes (Method r) (URLPath r) = Some ([], [ping])"
    using assms by (simp add: routes_def)
  have u0: "untouched r ?c0" by (simp add: untouched_def new_context_def)
  have m: "Method r \<noteq> ''OPTIONS''" using assms(1) by simp
  have ct: "content_type_ok r" using assms(1) by (simp add: content_type_ok_def)
  have "\<exists>cf. run_chain (middleware @ [ping]) (?c0, w) = Done (cf, ?wz)
          \<and> Status cf = (if limiter_allows r w then 200 else 429) \<and> Written cf"
  proof (cases "limiter_allows r w")
    case True
    have tail: "\<exists>cf. run_chain [ping] (c', after_limiter r w) = Done (cf, after_limiter r w)
                \<and> (Status cf = 200 \<and> Written cf)" if "untouched r c'" for c'
      using JSON_untouched [OF that, of 200] by (simp add: ping_def bodyAllowedForStatus_def)
    from middleware_pass [OF u0 m ct True, of "[ping]" "after_limiter r w"
      "\<lambda>cf. Status cf = 200 \<and> Written cf"] tail True
    show ?thesis by (simp add: after_limiter_def numeral_3_eq_3)
  next
    case False
    from middleware_reject [OF u0 m False, of "[ping]"] False show ?thesis by simp
  qed
  then obtain cf where cf: "run_chain (middleware @ [ping]) (?c0, w) = Done (cf, ?wz)"
    "Status cf = (if limiter_allows r w then 200 else 429)" "Written cf" by blast
  have "ServeHTTP r w = Done (cf, ?wz)"
    using route cf(1,3) Next_untouched [OF u0] by (simp add: ServeHTTP_def WriteHeaderNow_def)
  with cf(2) show "returned (ServeHTTP r w)"
    and "result_world (ServeHTTP r w) = (after_limiter r w)\<lparr>reads := reads w + 3\<rparr>"
    and "Status (result_context (ServeHTTP r w)) = (if limiter_allows r w then 200 else 429)"
    by (simp_all add: observe_defs)
qed

lemma rate_value: "Every (Minute div 100) = 1 / 600000000"
  by (simp add: Every_def Minute_def)

lemma Allow_at_new:
  "fst (Allow_at t (NewLimiter (Every (Minute div 100)) 100))"
  "snd (Allow_at t (NewLimiter (Every (Minute div 100)) 100))
     = \<lparr>capacity = 100, refill_rate = Every (Minute div 100), current_tokens = 99,
        last_refill_time = t\<rparr>"
  by (simp_all add: Allow_at_def NewLimiter_def rate_value Let_def min_def)

lemma Allow_at_take:
  assumes "configured l" and "last_refill_time l \<le> t"
    and "1 \<le> current_tokens l + of_int (t - last_refill_time l) / 600000000"
  shows "fst (Allow_at t l)" and "configured (snd (Allow_at t l))"
    and "last_refill_time (snd (Allow_at t l)) = t"
    and "current_tokens (snd (Allow_at t l))
           = min 100 (current_tokens l + of_int (t - last_refill_time l) / 600000000) - 1"
proof -
  have c: "capacity l = 100" "refill_rate l = 1 / 600000000"
    using assms(1) by (simp_all only: configured_def rate_value)
  show "fst (Allow_at t l)" and "configured (snd (Allow_at t l))"
    and "last_refill_time (snd (Allow_at t l)) = t"
    and "current_tokens (snd (Allow_at t l))
           = min 100 (current_tokens l + of_int (t - last_refill_time l) / 600000000) - 1"
    using assms(2,3) by (simp_all add: Allow_at_def configured_def rate_value Let_def c)
qed

lemma Allow_at_refuse:
  assumes "configured l" and "last_refill_time l \<le> t"
    and "current_tokens l + of_int (t - last_refill_time l) / 600000000 < 1"
  shows "\<not> fst (Allow_at t l)" and "configured (snd (Allow_at t l))"
    and "last_refill_time (snd (Allow_at t l)) = t"
    and "current_tokens (snd (Allow_at t l))
           = current_tokens l + of_int (t - last_refill_time l) / 600000000"
proof -
  have c: "capacity l = 100" "refill_rate l = 1 / 600000000"
    using assms(1) by (simp_all only: configured_def rate_value)
  show "\<not> fst (Allow_at t l)" and "configured (snd (Allow_at t l))"
    and "last_refill_time (snd (Allow_at t l)) = t"
    and "current_tokens (snd (Allow_at t l))
           = current_tokens l + of_int (t - last_refill_time l) / 600000000"
    using assms(2,3) by (simp_all add: Allow_at_def configured_def rate_value Let_def c)
qed


lemma getLimiter_fst:
  "visitors w ip = Some l \<Longrightarrow> fst (getLimiter ip w) = l"
  "visitors w ip = None \<Longrightarrow> fst (getLimiter ip w) = NewLimiter (Every (Minute div 100)) 100"
  by (simp_all add: getLimiter_def Let_def)

lemma serve_all_append:
  "serve_all (xs @ ys) w =
     (fst (serve_all xs w) @ fst (serve_all ys (snd (serve_all xs w))),
      snd (serve_all ys (snd (serve_all xs w))))"
  by (induction xs arbitrary: w) (simp_all add: Let_def)

text \<open>What one more request of the burst does to a bucket that still has a token.\<close>

lemma burst_take:
  assumes ping: "Method r = ''GET''" "URLPath r = [''ping'']"
    and rd: "reads w' = reads w + 3 * k" "clock w' = clock w"
    and al: "fst (Allow_at (limiter_reading w k) (fst (getLimiter (ClientIP r) w')))"
  shows "Status (result_context (ServeHTTP r w')) = 200"
    and "reads (result_world (ServeHTTP r w')) = reads w + 3 * Suc k"
    and "clock (result_world (ServeHTTP r w')) = clock w"
    and "visitors (result_world (ServeHTTP r w')) (ClientIP r)
           = Some (snd (Allow_at (limiter_reading w k) (fst (getLimiter (ClientIP r) w'))))"
proof -
  have t: "clock w' (Suc (reads w')) = limiter_reading w k"
    using rd by (simp add: limiter_reading_def)
  then have "limiter_allows r w'" using al by (simp add: limiter_allows_def)
  then show "Status (result_context (ServeHTTP r w')) = 200"
    using ServeHTTP_ping(3) [OF ping, of w'] by simp
  show "reads (result_world (ServeHTTP r w')) = reads w + 3 * Suc k"
    and "clock (result_world (ServeHTTP r w')) = clock w"
    and "visitors (result_world (ServeHTTP r w')) (ClientIP r)
           = Some (snd (Allow_at (limiter_reading w k) (fst (getLimiter (ClientIP r) w'))))"
    using rd t by (simp_all add: ServeHTTP_ping(2) [OF ping] after_limiter_def)
qed

lemma burst_step:
  assumes ping: "Method r = ''GET''" "URLPath r = [''ping'']"
    and full: "bucket_full r w"
    and mono: "\<forall>j<100. limiter_reading w j \<le> limiter_reading w (Suc j)"
    and st: "burst_state r w k w'" and k: "k < 100"
  shows "Status (result_context (ServeHTTP r w')) = 200"
    and "burst_state r w (Suc k) (result_world (ServeHTTP r w'))"
proof -
  let ?t = "limiter_reading w k"
  let ?l = "fst (getLimiter (ClientIP r) w')"
  have rd: "reads w' = reads w + 3 * k" "clock w' = clock w"
    using st by (simp_all add: burst_state_def)
  have lim: "fst (Allow_at ?t ?l) \<and> configured (snd (Allow_at ?t ?l))
      \<and> last_refill_time (snd (Allow_at ?t ?l)) = ?t
      \<and> 100 - of_nat (Suc k) \<le> current_tokens (snd (Allow_at ?t ?l))
      \<and> current_tokens (snd (Allow_at ?t ?l))
          \<le> 100 - of_nat (Suc k) + of_int (?t - limiter_reading w 0) / 600000000"
  proof (cases "k = 0")
    case True
    then have v: "visitors w' = visitors w" using st by (simp add: burst_state_def)
    show ?thesis
    proof (cases "visitors w (ClientIP r)")
      case None
      then have "?l = NewLimiter (Every (Minute div 100)) 100"
        using v getLimiter_fst(2) [of w' "ClientIP r"] by simp
      then show ?thesis using True
        by (simp add: Allow_at_new configured_def)
    next
      case (Some l)
      then have l: "?l = l" using v getLimiter_fst(1) [of w' "ClientIP r" l] by simp
      from full Some have c: "configured l" and le: "last_refill_time l \<le> ?t"
        and tk0: "100 \<le> current_tokens l + of_int (?t - last_refill_time l) * refill_rate l"
        using True by (simp_all add: bucket_full_def)
      have rr: "refill_rate l = 1 / 600000000"
        using c by (simp only: configured_def rate_value)
      have tk: "100 \<le> current_tokens l + of_int (?t - last_refill_time l) / 600000000"
        using tk0 by (simp add: rr)
      from tk have "1 \<le> current_tokens l + of_int (?t - last_refill_time l) / 600000000"
        by linarith
      from Allow_at_take [OF c le this] tk True l show ?thesis by simp
    qed
  next
    case False
    with st obtain l where v: "visitors w' (ClientIP r) = Some l" and c: "configured l"
      and la: "last_refill_time l = limiter_reading w (k - 1)"
      and lo: "100 - of_nat k \<le> current_tokens l"
      and hi: "current_tokens l
                 \<le> 100 - of_nat k + of_int (limiter_reading w (k - 1) - limiter_reading w 0) / 600000000"
      by (auto simp add: burst_state_def split: option.splits)
    have l: "?l = l" using v by (rule getLimiter_fst(1))
    have le: "last_refill_time l \<le> ?t"
      using mono [rule_format, of "k - 1"] False k la by simp
    define tok where "tok = current_tokens l"
    define K where "K = (of_nat k :: rat)"
    define e where "e = (of_int (?t - last_refill_time l) / 600000000 :: rat)"
    define a where "a = (of_int (limiter_reading w (k - 1) - limiter_reading w 0) / 600000000 :: rat)"
    define d where "d = (of_int (?t - limiter_reading w 0) / 600000000 :: rat)"
    have k1: "K \<le> 99" "0 \<le> K" using k by (simp_all add: K_def)
    have e: "0 \<le> e" using le by (simp add: e_def)
    have lo': "100 - K \<le> tok" and hi': "tok \<le> 100 - K + a"
      using lo hi by (simp_all add: tok_def K_def a_def)
    have one: "1 \<le> tok + e" using lo' k1(1) e by linarith
    have d: "d = a + e"
      unfolding d_def a_def e_def la by (simp flip: add_divide_distrib)
    have new: "current_tokens (snd (Allow_at ?t l)) = min 100 (tok + e) - 1"
      using Allow_at_take(4) [OF c le] one by (simp add: tok_def e_def)
    have "100 - (K + 1) \<le> min 100 (tok + e) - 1" using lo' e k1 by linarith
    moreover have "min 100 (tok + e) - 1 \<le> 100 - (K + 1) + d" using hi' d by linarith
    ultimately have "100 - of_nat (Suc k) \<le> current_tokens (snd (Allow_at ?t l))"
      "current_tokens (snd (Allow_at ?t l))
          \<le> 100 - of_nat (Suc k) + of_int (?t - limiter_reading w 0) / 600000000"
      using new by (simp_all add: K_def d_def)
    with Allow_at_take(1,2,3) [OF c le] one l show ?thesis
      by (simp add: tok_def e_def)
  qed
  then have al: "fst (Allow_at ?t ?l)" by simp
  show "Status (result_context (ServeHTTP r w')) = 200"
    by (rule burst_take(1) [OF ping rd al])
  show "burst_state r w (Suc k) (result_world (ServeHTTP r w'))"
    using burst_take(2,3,4) [OF ping rd al] lim
    by (simp add: burst_state_def)
qed

lemma burst_run:
  assumes ping: "Method r = ''GET''" "URLPath r = [''ping'']"
    and full: "bucket_full r w"
    and mono: "\<forall>j<100. limiter_reading w j \<le> limiter_reading w (Suc j)"
  shows "k \<le> 100 \<Longrightarrow>
         fst (serve_all (replicate k r) w) = replicate k 200
         \<and> burst_state r w k (snd (serve_all (replicate k r) w))"
proof (induction k)
  case 0
  show ?case by (simp add: burst_state_def)
next
  case (Suc k)
  then have ih: "fst (serve_all (replicate k r) w) = replicate k 200"
    "burst_state r w k (snd (serve_all (replicate k r) w))" and k: "k < 100" by simp_all
  have rep: "replicate (Suc k) r = replicate k r @ [r]"
    by (simp add: replicate_append_same)
  from burst_step [OF ping full mono ih(2) k] ih(1) show ?case
    unfolding rep serve_all_append
    by (simp add: Let_def replicate_append_same)
qed


lemma burst_refuse:
  assumes ping: "Method r = ''GET''" "URLPath r = [''ping'']"
    and rd: "reads w' = reads w + 3 * k" "clock w' = clock w"
    and al: "\<not> fst (Allow_at (limiter_reading w k) (fst (getLimiter (ClientIP r) w')))"
  shows "Status (result_context (ServeHTTP r w')) = 429"
    and "reads (result_world (ServeHTTP r w')) = reads w + 3 * Suc k"
    and "clock (result_world (ServeHTTP r w')) = clock w"
    and "visitors (result_world (ServeHTTP r w')) (ClientIP r)
           = Some (snd (Allow_at (limiter_reading w k) (fst (getLimiter (ClientIP r) w'))))"
proof -
  have t: "clock w' (Suc (reads w')) = limiter_reading w k"
    using rd by (simp add: limiter_reading_def)
  then have "\<not> limiter_allows r w'" using al by (simp add: limiter_allows_def)
  then show "Status (result_context (ServeHTTP r w')) = 429"
    using ServeHTTP_ping(3) [OF ping, of w'] by simp
  show "reads (result_world (ServeHTTP r w')) = reads w + 3 * Suc k"
    and "clock (result_world (ServeHTTP r w')) = clock w"
    and "visitors (result_world (ServeHTTP r w')) (ClientIP r)
           = Some (snd (Allow_at (limiter_reading w k) (fst (getLimiter (ClientIP r) w'))))"
    using rd t by (simp_all add: ServeHTTP_ping(2) [OF ping] after_limiter_def)
qed

text \<open>
  C8. For every client whose bucket is full (a client not seen before, or one whose
  tokens have accrued to the capacity), and requests \<open>GET /ping\<close> answered one after the
  other: if the readings of the clock that the limiter takes for the first 101 requests
  do not go back and span less than one refill interval (\<open>time.Minute/100\<close>, 600 ms),
  the first 100 are answered 200 and the 101st 429; if the limiter's reading for the
  next request is at least one refill interval after that, the request is answered 200.
\<close>

theorem burst_of_100_then_429:
  assumes ping: "Method r = ''GET''" "URLPath r = [''ping'']"
    and full: "bucket_full r w"
    and mono: "\<forall>j<100. limiter_reading w j \<le> limiter_reading w (Suc j)"
    and window: "limiter_reading w 100 - limiter_reading w 0 < Minute div 100"
    and wait: "limiter_reading w 100 + Minute div 100 \<le> limiter_reading w 101"
  shows "fst (serve_all (replicate 102 r) w) = replicate 100 200 @ [429, 200]"
proof -
  let ?w100 = "snd (serve_all (replicate 100 r) w)"
  let ?w101 = "result_world (ServeHTTP r ?w100)"
  from burst_run [OF ping full mono, of 100]
  have s100: "fst (serve_all (replicate 100 r) w) = replicate 100 200"
    and st: "burst_state r w 100 ?w100" by simp_all
  from st obtain l where rd: "reads ?w100 = reads w + 3 * 100" "clock ?w100 = clock w"
    and v: "visitors ?w100 (ClientIP r) = Some l" and c: "configured l"
    and la: "last_refill_time l = limiter_reading w 99"
    and lo: "0 \<le> current_tokens l"
    and hi: "current_tokens l \<le> of_int (limiter_reading w 99 - limiter_reading w 0) / 600000000"
    by (auto simp add: burst_state_def split: option.splits)
  have l: "fst (getLimiter (ClientIP r) ?w100) = l" using v by (rule getLimiter_fst(1))
  have le: "last_refill_time l \<le> limiter_reading w 100"
    using mono [rule_format, of 99] la by simp
  define tok where "tok = current_tokens l"
  define e where "e = (of_int (limiter_reading w 100 - last_refill_time l) / 600000000 :: rat)"
  define a where "a = (of_int (limiter_reading w 99 - limiter_reading w 0) / 600000000 :: rat)"
  define d where "d = (of_int (limiter_reading w 100 - limiter_reading w 0) / 600000000 :: rat)"
  have d: "d = a + e" unfolding d_def a_def e_def la by (simp flip: add_divide_distrib)
  have "limiter_reading w 100 - limiter_reading w 0 < 600000000"
    using window by (simp add: Minute_def)
  then have "(of_int (limiter_reading w 100 - limiter_reading w 0) :: rat) < of_int 600000000"
    by (simp only: of_int_less_iff)
  then have d1: "d < 1" by (simp add: d_def)
  have e: "0 \<le> e" using le by (simp add: e_def)
  have hi': "tok \<le> a" and lo': "0 \<le> tok" using hi lo by (simp_all only: tok_def a_def)
  have lt: "tok + e < 1" using hi' d d1 by linarith
  have ge: "0 \<le> tok + e" using lo' e by linarith
  have no: "\<not> fst (Allow_at (limiter_reading w 100) (fst (getLimiter (ClientIP r) ?w100)))"
    using Allow_at_refuse(1) [OF c le] lt l by (simp add: tok_def e_def)
  note r101 = burst_refuse [OF ping rd no]
  obtain l' where l': "l' = snd (Allow_at (limiter_reading w 100) l)" by simp
  have v': "visitors ?w101 (ClientIP r) = Some l'" using r101(4) l l' by simp
  have c': "configured l'" and la': "last_refill_time l' = limiter_reading w 100"
    and tk': "current_tokens l' = tok + e"
    using Allow_at_refuse(2,3,4) [OF c le] lt l' by (simp_all add: tok_def e_def)
  have gl': "fst (getLimiter (ClientIP r) ?w101) = l'" using v' by (rule getLimiter_fst(1))
  have le': "last_refill_time l' \<le> limiter_reading w 101"
    using wait la' by (simp add: Minute_def)
  have "600000000 \<le> limiter_reading w 101 - last_refill_time l'"
    using wait la' by (simp add: Minute_def)
  then have "(of_int 600000000 :: rat) \<le> of_int (limiter_reading w 101 - last_refill_time l')"
    by (simp only: of_int_le_iff)
  then have "1 \<le> (of_int (limiter_reading w 101 - last_refill_time l') / 600000000 :: rat)"
    by simp
  then have one: "1 \<le> current_tokens l'
      + of_int (limiter_reading w 101 - last_refill_time l') / 600000000"
    using ge tk' by linarith
  have yes: "fst (Allow_at (limiter_reading w (Suc 100)) (fst (getLimiter (ClientIP r) ?w101)))"
    using Allow_at_take(1) [OF c' le' one] gl' by simp
  have rd': "reads ?w101 = reads w + 3 * Suc 100" "clock ?w101 = clock w"
    using r101(2,3) by simp_all
  note r102 = burst_take(1) [OF ping rd' yes]
  have "replicate (100 + 2) r = replicate 100 r @ replicate 2 r"
    by (rule replicate_add)
  moreover have "replicate 2 r = [r, r]" by (simp add: numeral_2_eq_2)
  moreover have "(100 + 2 :: nat) = 102" by simp
  ultimately have rep: "replicate 102 r = replicate 100 r @ [r, r]" by (simp only:)
  show ?thesis
    unfolding rep serve_all_append using s100 r101(1) r102
    by (simp add: Let_def)
qed

theorem burst_of_100_then_429_witness:
  "Method get_ping = ''GET'' \<and> URLPath get_ping = [''ping'']
   \<and> bucket_full get_ping (initial_world burst_clock one_uuid)
   \<and> limiter_reading (initial_world burst_clock one_uuid) 100
        - limiter_reading (initial_world burst_clock one_uuid) 0 < Minute div 100
   \<and> limiter_reading (initial_world burst_clock one_uuid) 100 + Minute div 100
        \<le> limiter_reading (initial_world burst_clock one_uuid) 101
   \<and> fst (serve_all (replicate 102 get_ping) (initial_world burst_clock one_uuid))
        = replicate 100 200 @ [429, 200]"
proof -
  have h: "Method get_ping = ''GET''" "URLPath get_ping = [''ping'']"
    by (simp_all add: get_ping_def)
  have f: "bucket_full get_ping (initial_world burst_clock one_uuid)"
    by (simp add: bucket_full_def initial_world_def)
  have m: "\<forall>j<100. limiter_reading (initial_world burst_clock one_uuid) j
             \<le> limiter_reading (initial_world burst_clock one_uuid) (Suc j)"
    by (simp add: limiter_reading_def initial_world_def burst_clock_def)
  have w: "limiter_reading (initial_world burst_clock one_uuid) 100
        - limiter_reading (initial_world burst_clock one_uuid) 0 < Minute div 100"
    "limiter_reading (initial_world burst_clock one_uuid) 100 + Minute div 100
        \<le> limiter_reading (initial_world burst_clock one_uuid) 101"
    by (simp_all add: limiter_reading_def initial_world_def burst_clock_def Minute_def)
  from burst_of_100_then_429 [OF h f m w] h f w show ?thesis by simp
qed

section \<open>The identifiers of the store\<close>

lemma ids_ok_Suc: "ids_ok n w \<Longrightarrow> ids_ok (Suc n) w"
  by (auto simp add: ids_ok_def)

lemma keepsI:
  "(\<And>c w. ids_ok n w \<Longrightarrow> ids_ok (Suc n) (result_world (k (c, w)))) \<Longrightarrow> keeps n k"
  by (simp add: keeps_def)

lemma keepsD: "keeps n k \<Longrightarrow> ids_ok n w \<Longrightarrow> ids_ok (Suc n) (result_world (k (c, w)))"
  by (simp add: keeps_def)

lemma result_world_simps [simp]:
  "result_world (Done (c, w)) = w" "result_world (Panic (c, w)) = w"
  by (simp_all add: result_world_def)

lemma keeps_Done: "keeps n Done"
  by (rule keepsI) (simp add: ids_ok_Suc)

lemma keeps_Next: "keeps n k \<Longrightarrow> keeps n (Next k)"
proof (rule keepsI)
  fix c w assume k: "keeps n k" and w: "ids_ok n w"
  from keepsD [OF k w, of c] ids_ok_Suc [OF w]
  show "ids_ok (Suc n) (result_world (Next k (c, w)))" by (simp add: Next_def)
qed

lemma passes_ErrorHandler: "passes_on n ErrorHandlerMiddleware"
  unfolding passes_on_def
proof (intro allI impI keepsI)
  fix k c w assume k: "keeps n k" and w: "ids_ok n w"
  have "result_world (ErrorHandlerMiddleware k (c, w)) = result_world (Next k (c, w))"
    by (simp add: ErrorHandlerMiddleware_def split: outcome.splits prod.splits)
  with keepsD [OF keeps_Next [OF k] w, of c]
  show "ids_ok (Suc n) (result_world (ErrorHandlerMiddleware k (c, w)))" by simp
qed

lemma keeps_Next_at:
  "keeps n k \<Longrightarrow> ids_ok n w \<Longrightarrow> articles w' = articles w \<Longrightarrow> nextId w' = nextId w \<Longrightarrow>
     ids_ok (Suc n) (result_world (Next k (c', w')))"
  using keepsD [OF keeps_Next, of n k w' c'] by (simp add: ids_ok_def)

lemma ids_ok_Suc_at:
  "ids_ok n w \<Longrightarrow> articles w' = articles w \<Longrightarrow> nextId w' = nextId w \<Longrightarrow> ids_ok (Suc n) w'"
  using ids_ok_Suc [of n w'] by (simp add: ids_ok_def)

lemma passes_RequestID: "passes_on n RequestIDMiddleware"
  unfolding passes_on_def
proof (intro allI impI keepsI)
  fix k c w assume k: "keeps n k" and w: "ids_ok n w"
  show "ids_ok (Suc n) (result_world (RequestIDMiddleware k (c, w)))"
    unfolding RequestIDMiddleware_def uuid_New_def Let_def prod.case
    by (rule keeps_Next_at [OF k w]) simp_all
qed

lemma passes_Logging: "passes_on n LoggingMiddleware"
  unfolding passes_on_def
proof (intro allI impI keepsI)
  fix k c w assume k: "keeps n k" and w: "ids_ok n w"
  have n: "ids_ok (Suc n) (result_world (Next k (c, w\<lparr>reads := Suc (reads w)\<rparr>)))"
    by (rule keeps_Next_at [OF k w]) simp_all
  show "ids_ok (Suc n) (result_world (LoggingMiddleware k (c, w)))"
  proof (cases "Next k (c, w\<lparr>reads := Suc (reads w)\<rparr>)")
    case (Done s)
    then show ?thesis using n
      by (cases s) (simp add: LoggingMiddleware_def time_Now_def ids_ok_def)
  next
    case (Panic s)
    then show ?thesis using n
      by (cases s) (simp add: LoggingMiddleware_def time_Now_def)
  qed
qed

lemma passes_CORS: "passes_on n CORSMiddleware"
  unfolding passes_on_def
proof (intro allI impI keepsI)
  fix k c w assume k: "keeps n k" and w: "ids_ok n w"
  have "ids_ok (Suc n) (result_world (Next k (c', w)))" for c'
    by (rule keeps_Next_at [OF k w]) simp_all
  then show "ids_ok (Suc n) (result_world (CORSMiddleware k (c, w)))"
    using ids_ok_Suc [OF w] by (simp add: CORSMiddleware_def Let_def)
qed

lemma passes_RateLimit: "passes_on n RateLimitMiddleware"
  unfolding passes_on_def
proof (intro allI impI keepsI)
  fix k and c :: gin_context and w assume k: "keeps n k" and w: "ids_ok n w"
  obtain l where gl: "getLimiter (ClientIP (Request c)) w
      = (l, w\<lparr>visitors := (visitors w)(ClientIP (Request c) \<mapsto> l)\<rparr>)"
    using getLimiter_frame [of "ClientIP (Request c)" w]
    by (cases "getLimiter (ClientIP (Request c)) w") simp
  have a: "ids_ok (Suc n) (result_world (Next k (c', w\<lparr>reads := m, visitors := v\<rparr>)))" for c' v m
    by (rule keeps_Next_at [OF k w]) simp_all
  have b: "ids_ok (Suc n) (w\<lparr>reads := m, visitors := v\<rparr>)" for v m
    by (rule ids_ok_Suc_at [OF w]) simp_all
  show "ids_ok (Suc n) (result_world (RateLimitMiddleware k (c, w)))"
    using a b by (simp add: RateLimitMiddleware_def gl time_Now_def Let_def split_beta)
qed

lemma passes_ContentType: "passes_on n ContentTypeMiddleware"
  unfolding passes_on_def
proof (intro allI impI keepsI)
  fix k c w assume k: "keeps n k" and w: "ids_ok n w"
  have "ids_ok (Suc n) (result_world (Next k (c', w)))" for c'
    by (rule keeps_Next_at [OF k w]) simp_all
  then show "ids_ok (Suc n) (result_world (ContentTypeMiddleware k (c, w)))"
    using ids_ok_Suc [OF w] by (simp add: ContentTypeMiddleware_def)
qed

lemma passes_Auth: "passes_on n AuthMiddleware"
  unfolding passes_on_def
proof (intro allI impI keepsI)
  fix k c w assume k: "keeps n k" and w: "ids_ok n w"
  have "ids_ok (Suc n) (result_world (Next k (c', w)))" for c'
    by (rule keeps_Next_at [OF k w]) simp_all
  then show "ids_ok (Suc n) (result_world (AuthMiddleware k (c, w)))"
    by (simp add: AuthMiddleware_def Let_def split_beta)
qed


lemma passes_onI:
  "(\<And>k c w. ids_ok n w \<Longrightarrow> ids_ok (Suc n) (result_world (h k (c, w)))) \<Longrightarrow> passes_on n h"
  by (simp add: passes_on_def keeps_def)

lemma wrap64_id: "- (2 ^ 63) \<le> x \<Longrightarrow> x < 2 ^ 63 \<Longrightarrow> wrap64 x = x"
  by (simp add: wrap64_def)

lemma passes_ping: "passes_on n ping"
  by (rule passes_onI) (simp add: ping_def ids_ok_Suc)

lemma passes_getArticles: "passes_on n getArticles"
  by (rule passes_onI) (simp add: getArticles_def ids_ok_Suc)

lemma passes_getArticleById: "passes_on n getArticleById"
  by (rule passes_onI)
     (simp add: getArticleById_def ids_ok_Suc Let_def split_beta split: option.splits)

lemma passes_getStats: "passes_on n getStats"
  by (rule passes_onI) (simp add: getStats_def ids_ok_Suc)

lemma passes_createArticle: "passes_on n createArticle"
proof (rule passes_onI)
  fix k and c :: gin_context and w assume w: "ids_ok n w"
  show "ids_ok (Suc n) (result_world (createArticle k (c, w)))"
  proof (cases "Body (Request c)")
    case (BindError e a)
    then show ?thesis using ids_ok_Suc [OF w] by (simp add: createArticle_def)
  next
    case (Bound input)
    show ?thesis
    proof (cases "validateArticle input")
      case (Some e)
      then show ?thesis using Bound ids_ok_Suc [OF w] by (simp add: createArticle_def)
    next
      case None
      have "ids_ok (Suc n)
              (w\<lparr>nextId := wrap64 (nextId w + 1), reads := m, articles := articles w @ [a]\<rparr>)"
        if "ID a = nextId w" for a m
        unfolding ids_ok_def
      proof (intro impI)
        assume b: "int (Suc n) + 3 < 2 ^ 63"
        then have "int n + 3 < 2 ^ 63" by simp
        with w have i: "3 \<le> nextId w" "nextId w \<le> 3 + int n"
          "\<forall>i\<in>set (map ID (articles w)). 1 \<le> i \<and> i < nextId w"
          by (simp_all add: ids_ok_def)
        have "wrap64 (nextId w + 1) = nextId w + 1"
          using i(1,2) b by (intro wrap64_id) simp_all
        with i that
        show "3 \<le> nextId (w\<lparr>nextId := wrap64 (nextId w + 1), reads := m,
                                articles := articles w @ [a]\<rparr>)
            \<and> nextId (w\<lparr>nextId := wrap64 (nextId w + 1), reads := m,
                          articles := articles w @ [a]\<rparr>) \<le> 3 + int (Suc n)
            \<and> (\<forall>i\<in>set (map ID (articles (w\<lparr>nextId := wrap64 (nextId w + 1), reads := m,
                          articles := articles w @ [a]\<rparr>))).
                  1 \<le> i \<and> i < nextId (w\<lparr>nextId := wrap64 (nextId w + 1), reads := m,
                          articles := articles w @ [a]\<rparr>))"
          by auto
      qed
      then show ?thesis using Bound None
        by (simp add: createArticle_def time_Now_def Let_def)
    qed
  qed
qed

lemma map_ID_update:
  "(\<And>a. ID (f a) = ID a) \<Longrightarrow> map ID (as[i := f (as ! i)]) = map ID as"
  by (cases "i < length as") (simp_all add: map_update list_update_same_conv list_update_beyond)

lemma map_ID_fields:
  "map ID (as[i := (as ! i)\<lparr>Title := t, Content := ct, Author := au, UpdatedAt := u\<rparr>]) = map ID as"
  using map_ID_update [where f = "\<lambda>a. a\<lparr>Title := t, Content := ct, Author := au, UpdatedAt := u\<rparr>"
          and as = as and i = i]
  by simp

lemma passes_updateArticle: "passes_on n updateArticle"
proof (rule passes_onI)
  fix k and c :: gin_context and w assume w: "ids_ok n w"
  show "ids_ok (Suc n) (result_world (updateArticle k (c, w)))"
  proof (cases "fst (findArticleByID (fst (Atoi (Param ''id'' c))) (articles w))")
    case None
    then show ?thesis using ids_ok_Suc [OF w]
      by (simp add: updateArticle_def Let_def split_beta)
  next
    case (Some a)
    have r: "ids_ok (Suc n) (w\<lparr>reads := m, articles := as\<rparr>)"
      if "map ID as = map ID (articles w)" for as m
    proof -
      from that have "ID ` set as = ID ` set (articles w)" by (metis set_map)
      with ids_ok_Suc [OF w] show ?thesis by (simp add: ids_ok_def)
    qed
    have r2: "ids_ok (Suc n) (w\<lparr>reads := m\<rparr>)" for m
      by (rule ids_ok_Suc_at [OF w]) simp_all
    from Some show ?thesis
      by (cases "nat (snd (findArticleByID (fst (Atoi (Param ''id'' c))) (articles w)))
                   < length (articles w)")
         (simp_all add: updateArticle_def time_Now_def Let_def split_beta r r2 map_ID_fields
            list_update_beyond)
  qed
qed

lemma passes_deleteArticle: "passes_on n deleteArticle"
proof (rule passes_onI)
  fix k and c :: gin_context and w assume w: "ids_ok n w"
  have "ids_ok (Suc n) (w\<lparr>articles := take i (articles w) @ drop j (articles w)\<rparr>)" for i j
    using ids_ok_Suc [OF w] by (auto simp add: ids_ok_def dest: in_set_takeD in_set_dropD)
  then show "ids_ok (Suc n) (result_world (deleteArticle k (c, w)))"
    using ids_ok_Suc [OF w]
    by (simp add: deleteArticle_def Let_def split_beta)
qed


lemma keeps_run_chain: "\<forall>h\<in>set hs. passes_on n h \<Longrightarrow> keeps n (run_chain hs)"
  by (induction hs) (simp_all add: keeps_Done passes_on_def)

lemma passes_middleware: "\<forall>h\<in>set middleware. passes_on n h"
  by (simp add: middleware_def passes_ErrorHandler passes_RequestID passes_Logging passes_CORS
        passes_RateLimit passes_ContentType)

lemma find_route_handlers:
  "find_route rs m p = Some (ps, hs) \<Longrightarrow> hs \<in> (\<lambda>(m', pat, hs'). hs') ` set rs"
  by (induction rs) (force split: if_splits option.splits)+

lemma passes_routes:
  assumes "find_route routes m p = Some (ps, hs)"
  shows "\<forall>h\<in>set hs. passes_on n h"
proof -
  from find_route_handlers [OF assms]
  have "hs \<in> {[ping], [getArticles], [getArticleById], [AuthMiddleware, createArticle],
              [AuthMiddleware, updateArticle], [AuthMiddleware, deleteArticle],
              [AuthMiddleware, getStats]}"
    by (simp add: routes_def)
  then show ?thesis
    by (auto simp add: passes_ping passes_getArticles passes_getArticleById passes_Auth
          passes_createArticle passes_updateArticle passes_deleteArticle passes_getStats)
qed

lemma ServeHTTP_ids_ok:
  assumes w: "ids_ok n w"
  shows "ids_ok (Suc n) (result_world (ServeHTTP r w))"
proof (cases "find_route routes (Method r) (URLPath r)")
  case None
  have "keeps n (Next (run_chain middleware))"
    by (intro keeps_Next keeps_run_chain passes_middleware)
  from keepsD [OF this w, of "(new_context r)\<lparr>Status := 404\<rparr>"] None show ?thesis
    by (cases "Next (run_chain middleware) ((new_context r)\<lparr>Status := 404\<rparr>, w)")
       (auto simp add: ServeHTTP_def serveError_def)
next
  case (Some a)
  obtain ps hs where a: "a = (ps, hs)" by (cases a)
  have "\<forall>h\<in>set (middleware @ hs). passes_on n h"
    using passes_middleware passes_routes [OF Some [unfolded a]] by auto
  then have "keeps n (Next (run_chain (middleware @ hs)))"
    by (intro keeps_Next keeps_run_chain)
  from keepsD [OF this w, of "(new_context r)\<lparr>Params := map_of ps\<rparr>"] Some a show ?thesis
    by (cases "Next (run_chain (middleware @ hs)) ((new_context r)\<lparr>Params := map_of ps\<rparr>, w)")
       (auto simp add: ServeHTTP_def)
qed

lemma served_ids_ok: "served n w \<Longrightarrow> ids_ok n w"
proof (induction rule: served.induct)
  case (start clk us)
  show ?case by (simp add: ids_ok_def initial_world_def)
next
  case (request n w r)
  then show ?case by (simp add: ServeHTTP_ids_ok)
qed

lemma served_no_zero:
  assumes "served n w" and "int n + 3 < 2 ^ 63"
  shows "\<forall>a\<in>set (articles w). ID a \<noteq> 0"
  using served_ids_ok [OF assms(1)] assms(2) by (auto simp add: ids_ok_def)

lemma Atoi_syntax: "parse_decimal s = None \<Longrightarrow> Atoi s = (0, Some ErrSyntax)"
  by (simp add: Atoi_def)

text \<open>
  C10. In every world that the server reaches with fewer than \<open>2^63 - 3\<close> requests, and
  for every context whose \<open>id\<close> parameter is not a decimal integer and in which nothing
  is written yet: \<open>strconv.Atoi\<close> gives 0, no stored article has the identifier 0, and
  each of \<open>getArticleById\<close>, \<open>updateArticle\<close> and \<open>deleteArticle\<close> leaves the world as it
  is and answers with the envelope "article not found", whose status is 404 (so not 400).
\<close>

theorem non_decimal_id_not_found:
  assumes "served n w" and "int n + 3 < 2 ^ 63"
    and "parse_decimal (Param ''id'' c) = None" and "\<not> Written c"
  shows "fst (Atoi (Param ''id'' c)) = 0
     \<and> (\<forall>a\<in>set (articles w). ID a \<noteq> 0)
     \<and> getArticleById k (c, w)
           = Done (JSON 404 (zero_response\<lparr>Success := False, Error := ''article not found'',
                               RequestID := GetString ''request_id'' c\<rparr>) c, w)
     \<and> updateArticle k (c, w)
           = Done (JSON 404 (zero_response\<lparr>Success := False, Error := ''article not found''\<rparr>) c, w)
     \<and> deleteArticle k (c, w)
           = Done (JSON 404 (zero_response\<lparr>Success := False, Error := ''article not found''\<rparr>) c, w)
     \<and> Status (JSON 404 e c) = 404
     \<and> Bodies (JSON 404 e c) = Bodies c @ [JSONBody e]"
proof -
  have z: "Atoi (Param ''id'' c) = (0, Some ErrSyntax)" using assms(3) by (rule Atoi_syntax)
  have nz: "\<forall>a\<in>set (articles w). ID a \<noteq> 0" by (rule served_no_zero [OF assms(1,2)])
  then have f: "find_from 0 0 (articles w) = (None, - 1)" by (rule find_from_absent)
  have "fst (Atoi (Param ''id'' c)) = 0" using z by simp
  moreover have "getArticleById k (c, w)
           = Done (JSON 404 (zero_response\<lparr>Success := False, Error := ''article not found'',
                               RequestID := GetString ''request_id'' c\<rparr>) c, w)"
    by (simp add: getArticleById_def z findArticleByID_def f)
  moreover have "updateArticle k (c, w)
           = Done (JSON 404 (zero_response\<lparr>Success := False, Error := ''article not found''\<rparr>) c, w)"
    by (simp add: updateArticle_def z findArticleByID_def f)
  moreover have "deleteArticle k (c, w)
           = Done (JSON 404 (zero_response\<lparr>Success := False, Error := ''article not found''\<rparr>) c, w)"
    by (simp add: deleteArticle_def z findArticleByID_def f)
  moreover have "Status (JSON 404 e c) = 404" "Bodies (JSON 404 e c) = Bodies c @ [JSONBody e]"
    using assms(4) by (simp_all add: gin_defs Let_def)
  ultimately show ?thesis using nz by blast
qed

theorem non_decimal_id_not_found_witness:
  "served 0 (initial_world tick one_uuid)
   \<and> parse_decimal (Param ''id'' context_abc) = None
   \<and> \<not> Written context_abc
   \<and> fst (Atoi (Param ''id'' context_abc)) = 0
   \<and> result_world (getArticleById Done (context_abc, initial_world tick one_uuid))
       = initial_world tick one_uuid
   \<and> Status (result_context (getArticleById Done (context_abc, initial_world tick one_uuid))) = 404
   \<and> Status (result_context (updateArticle Done (context_abc, initial_world tick one_uuid))) = 404
   \<and> Status (result_context (deleteArticle Done (context_abc, initial_world tick one_uuid))) = 404
   \<and> Bodies (result_context (deleteArticle Done (context_abc, initial_world tick one_uuid)))
       = [JSONBody (zero_response\<lparr>Success := False, Error := ''article not found''\<rparr>)]
   \<and> Status (result_context (ServeHTTP get_article_abc (initial_world tick one_uuid))) = 404"
proof -
  have s: "served 0 (initial_world tick one_uuid)" by (rule served.start)
  have b: "int 0 + 3 < 2 ^ 63" by simp
  have p: "parse_decimal (Param ''id'' context_abc) = None"
    by (simp add: context_abc_def Param_def parse_decimal_def digit_def)
  have n: "\<not> Written context_abc"
    by (simp add: context_abc_def new_context_def)
  have e: "Status (result_context (ServeHTTP get_article_abc (initial_world tick one_uuid))) = 404"
    by (simp add: gin_defs env_defs limiter_defs middleware_defs handler_defs engine_defs
          observe_defs example_defs get_article_abc_def get_ping_def Let_def)
  have c: "Bodies context_abc = []" by (simp add: context_abc_def new_context_def)
  from non_decimal_id_not_found [OF s b p n, of Done
      "zero_response\<lparr>Success := False, Error := ''article not found''\<rparr>"]
    non_decimal_id_not_found [OF s b p n, of Done
      "zero_response\<lparr>Success := False, Error := ''article not found'',
         RequestID := GetString ''request_id'' context_abc\<rparr>"]
    s p n e c
  show ?thesis by (simp add: result_context_def)
qed

section \<open>Creating an article over HTTP\<close>

text \<open>
  C6, as the claim states it: the \<open>POST\<close> of the example returns an identifier that is
  the next integer after the current maximum, and equal stamps. On the initial store
  the identifier is 3, but the stamps are the two successive readings 6000 and 7000 of
  the clock. After \<open>DELETE /article/2\<close> the store holds the identifier 1 only, and the
  identifier of the new article is 3 again, not 2.
\<close>

theorem post_id_and_stamps_differ:
  "Bodies (result_context (ServeHTTP post_ABC (initial_world tick one_uuid)))
     = [JSONBody \<lparr>Success = True,
          Data = Some (OneArticle \<lparr>ID = 3, Title = ''A'', Content = ''B'', Author = ''C'',
                                     CreatedAt = 6000, UpdatedAt = 7000\<rparr>),
          Message = [], Error = [], RequestID = []\<rparr>]
   \<and> map ID (articles (result_world
          (ServeHTTP (delete_at ''article'' ''2'') (initial_world tick one_uuid)))) = [1]
   \<and> Status (result_context (ServeHTTP post_ABC (result_world
          (ServeHTTP (delete_at ''article'' ''2'') (initial_world tick one_uuid))))) = 201
   \<and> Bodies (result_context (ServeHTTP post_ABC (result_world
          (ServeHTTP (delete_at ''article'' ''2'') (initial_world tick one_uuid)))))
       = [JSONBody \<lparr>Success = True,
            Data = Some (OneArticle \<lparr>ID = 3, Title = ''A'', Content = ''B'', Author = ''C'',
                                       CreatedAt = 9000, UpdatedAt = 10000\<rparr>),
            Message = [], Error = [], RequestID = []\<rparr>]"
  by (simp add: gin_defs env_defs limiter_defs middleware_defs handler_defs engine_defs
       observe_defs example_defs delete_at_def Let_def)

text \<open>
  C6, amended. A \<open>POST /articles\<close> with a key of the mapping, a content type that starts
  with \<open>application/json\<close>, a body that binds to a record with title, content and author
  not empty, from a client whose bucket has a token: the answer is 201, the envelope's
  data is the stored record, its identifier is the counter \<open>nextId\<close> of the store, and
  its \<open>created_at\<close> and \<open>updated_at\<close> are the third and the fourth reading that the
  request takes of the clock; the record is appended and the counter incremented. In a
  world that the server reaches with fewer than \<open>2^63 - 4\<close> requests the identifier is
  greater than every identifier in the store.
\<close>

theorem post_article_created:
  assumes "Method r = ''POST''" and "URLPath r = [''articles'']"
    and "ReqHeader r ''X-API-Key'' = Some key" and "apiKeys key = Some role"
    and "ReqHeader r ''Content-Type'' = Some ct" and "prefix ''application/json'' ct"
    and "Body r = Bound input"
    and "Title input \<noteq> []" and "Content input \<noteq> []" and "Author input \<noteq> []"
    and "limiter_allows r w"
    and "served n w" and "int n + 4 < 2 ^ 63"
  shows "returned (ServeHTTP r w)
     \<and> Status (result_context (ServeHTTP r w)) = 201
     \<and> Bodies (result_context (ServeHTTP r w))
         = [JSONBody (zero_response\<lparr>Success := True,
              Data := Some (OneArticle (input\<lparr>ID := nextId w,
                        CreatedAt := clock w (reads w + 2), UpdatedAt := clock w (reads w + 3)\<rparr>))\<rparr>)]
     \<and> articles (result_world (ServeHTTP r w))
         = articles w @ [input\<lparr>ID := nextId w,
                        CreatedAt := clock w (reads w + 2), UpdatedAt := clock w (reads w + 3)\<rparr>]
     \<and> nextId (result_world (ServeHTTP r w)) = nextId w + 1
     \<and> (\<forall>a\<in>set (articles w). ID a < nextId w)"
proof -
  let ?stored = "input\<lparr>ID := nextId w,
                        CreatedAt := clock w (reads w + 2), UpdatedAt := clock w (reads w + 3)\<rparr>"
  let ?resp = "zero_response\<lparr>Success := True, Data := Some (OneArticle ?stored)\<rparr>"
  let ?w3 = "after_limiter r w"
  let ?wz = "?w3\<lparr>nextId := wrap64 (nextId w + 1), reads := reads w + 4,
                 articles := articles w @ [?stored]\<rparr>"
  let ?c0 = "(new_context r)\<lparr>Params := map_of []\<rparr>"
  have route: "find_route routes (Method r) (URLPath r) = Some ([], [AuthMiddleware, createArticle])"
    using assms(1,2) by (simp add: routes_def)
  have u0: "untouched r ?c0" by (simp add: untouched_def new_context_def)
  have m: "Method r \<noteq> ''OPTIONS''" using assms(1) by simp
  have ct: "content_type_ok r" using assms(5,6) by (simp add: content_type_ok_def)
  have tail: "\<exists>cf. run_chain [AuthMiddleware, createArticle] (c', ?w3) = Done (cf, ?wz)
                \<and> (Status cf = 201 \<and> Bodies cf = [JSONBody ?resp] \<and> Written cf)"
    if "untouched r c'" for c'
  proof -
    from Auth_pass [OF that assms(3,4), of ?w3] obtain c2 where c2: "untouched r c2"
      "\<forall>k. AuthMiddleware k (c', ?w3) = k (c2, ?w3)" by blast
    have "run_chain [AuthMiddleware, createArticle] (c', ?w3) = createArticle Done (c2, ?w3)"
      using c2(2) by simp
    also have "\<dots> = Done (JSON 201 ?resp c2, ?wz)"
      using createArticle_valid [OF c2(1) assms(7,8,9,10), of Done ?w3]
      by (simp add: after_limiter_frame numeral_3_eq_3 numeral_2_eq_2 eval_nat_numeral)
    finally show ?thesis
      using JSON_untouched [OF c2(1), of 201 ?resp] by (simp add: bodyAllowedForStatus_def)
  qed
  from middleware_pass [OF u0 m ct assms(11), of "[AuthMiddleware, createArticle]" ?wz
      "\<lambda>cf. Status cf = 201 \<and> Bodies cf = [JSONBody ?resp] \<and> Written cf"] tail
  obtain cf where cf: "run_chain (middleware @ [AuthMiddleware, createArticle]) (?c0, w)
      = Done (cf, ?wz\<lparr>reads := Suc (reads ?wz)\<rparr>)"
    "Status cf = 201" "Bodies cf = [JSONBody ?resp]" "Written cf" by blast
  have "ServeHTTP r w = Done (cf, ?wz\<lparr>reads := Suc (reads ?wz)\<rparr>)"
    using route cf(1,4) Next_untouched [OF u0]
    by (simp add: ServeHTTP_def WriteHeaderNow_def)
  moreover have ok: "3 \<le> nextId w" "nextId w \<le> 3 + int n"
    "\<forall>a\<in>set (articles w). ID a < nextId w"
    using served_ids_ok [OF assms(12)] assms(13) by (auto simp add: ids_ok_def)
  moreover have "- (2 ^ 63) \<le> nextId w + 1" "nextId w + 1 < 2 ^ 63"
    using ok(1,2) assms(13) by linarith+
  then have "wrap64 (nextId w + 1) = nextId w + 1" by (rule wrap64_id)
  ultimately show ?thesis using cf(2,3)
    by (simp add: observe_defs)
qed

theorem post_article_created_witness:
  "Method post_ABC = ''POST'' \<and> URLPath post_ABC = [''articles'']
   \<and> ReqHeader post_ABC ''X-API-Key'' = Some ''admin-key'' \<and> apiKeys ''admin-key'' = Some ''admin''
   \<and> ReqHeader post_ABC ''Content-Type'' = Some ''application/json''
   \<and> prefix ''application/json'' ''application/json''
   \<and> Body post_ABC = Bound (zero_article\<lparr>Title := ''A'', Content := ''B'', Author := ''C''\<rparr>)
   \<and> limiter_allows post_ABC (initial_world tick one_uuid)
   \<and> served 0 (initial_world tick one_uuid)
   \<and> returned (ServeHTTP post_ABC (initial_world tick one_uuid))
   \<and> Status (result_context (ServeHTTP post_ABC (initial_world tick one_uuid))) = 201
   \<and> articles (result_world (ServeHTTP post_ABC (initial_world tick one_uuid)))
       = articles (initial_world tick one_uuid)
         @ [\<lparr>ID = 3, Title = ''A'', Content = ''B'', Author = ''C'',
             CreatedAt = 6000, UpdatedAt = 7000\<rparr>]
   \<and> nextId (result_world (ServeHTTP post_ABC (initial_world tick one_uuid))) = 4"
proof -
  have h: "Method post_ABC = ''POST''" "URLPath post_ABC = [''articles'']"
    "ReqHeader post_ABC ''X-API-Key'' = Some ''admin-key''" "apiKeys ''admin-key'' = Some ''admin''"
    "ReqHeader post_ABC ''Content-Type'' = Some ''application/json''"
    "prefix ''application/json'' ''application/json''"
    "Body post_ABC = Bound (zero_article\<lparr>Title := ''A'', Content := ''B'', Author := ''C''\<rparr>)"
    "Title (zero_article\<lparr>Title := ''A'', Content := ''B'', Author := ''C''\<rparr>) \<noteq> []"
    "Content (zero_article\<lparr>Title := ''A'', Content := ''B'', Author := ''C''\<rparr>) \<noteq> []"
    "Author (zero_article\<lparr>Title := ''A'', Content := ''B'', Author := ''C''\<rparr>) \<noteq> []"
    by (simp_all add: post_ABC_def apiKeys_def zero_article_def)
  have l: "limiter_allows post_ABC (initial_world tick one_uuid)"
    by (simp add: limiter_allows_def limiter_defs post_ABC_def initial_world_def tick_def Let_def)
  have s: "served 0 (initial_world tick one_uuid)" by (rule served.start)
  have b: "int 0 + 4 < 2 ^ 63" by simp
  from post_article_created [OF h l s b] h l s show ?thesis
    by (simp add: zero_article_def initial_world_def tick_def)
qed

end
